theory Spec2Isabelle
  imports Main "HOL-Library.Sublist"
begin

section \<open>The Unreal asset publish plugin\<close>

text \<open>
  A shallow embedding of \<^verbatim>\<open>hooks/tk-multi-publish2/basic/publish_unreal_asset.py\<close>:
  the class \<^verbatim>\<open>UnrealAssetPublishPlugin\<close> with its two properties
  (\<^verbatim>\<open>settings\<close>, \<^verbatim>\<open>item_filters\<close>) and its four callbacks
  (\<^verbatim>\<open>accept\<close>, \<^verbatim>\<open>validate\<close>, \<^verbatim>\<open>publish\<close>, \<^verbatim>\<open>finalize\<close>).

  The plugin is glue between libraries that are not part of the repository: the
  toolkit (its templates, its base publish hook, \<^verbatim>\<open>ensure_folder_exists\<close>), the
  engine (\<^verbatim>\<open>get_shotgun_work_dir\<close>), and Python's \<^verbatim>\<open>os.path\<close>, \<^verbatim>\<open>shutil\<close>
  and \<^verbatim>\<open>datetime\<close>. What the plugin reads from them is a field of the record
  \<open>env\<close>; the string and path functions of the standard library are written
  out after their POSIX implementation (\<^verbatim>\<open>posixpath.py\<close>); the file system is a
  finite tree of directories and files.
\<close>

subsection \<open>Python values and exceptions\<close>

text \<open>
  A template object is a handle: what it does with a set of fields belongs to
  the toolkit and is looked up in the environment.
\<close>

datatype template = Template string

datatype pyval =
    PNone
  | PBool bool
  | PInt int
  | PStr string
  | PTemplate template

datatype error =
    AttributeError
  | KeyError string
  | TypeError
  | TankError string
  | FileNotFoundError
  | NotADirectoryError
  | FileExistsError
  | ShutilError
  | HookError string

text \<open>Python's truth value of an object, as \<^verbatim>\<open>not x\<close> tests it.\<close>

fun truthy :: "pyval \<Rightarrow> bool" where
  "truthy PNone = False"
| "truthy (PBool b) = b"
| "truthy (PInt n) = (n \<noteq> 0)"
| "truthy (PStr s) = (s \<noteq> [])"
| "truthy (PTemplate t) = True"

text \<open>\<^verbatim>\<open>d.get(k)\<close>: the value, or \<^verbatim>\<open>None\<close> for a missing key.\<close>

definition dict_get :: "(string \<rightharpoonup> pyval) \<Rightarrow> string \<Rightarrow> pyval" where
  "dict_get d k = (case d k of None \<Rightarrow> PNone | Some v \<Rightarrow> v)"

text \<open>\<^verbatim>\<open>d[k]\<close>: the value, or \<^verbatim>\<open>KeyError\<close> for a missing key.\<close>

definition dict_item :: "(string \<rightharpoonup> pyval) \<Rightarrow> string \<Rightarrow> error + pyval" where
  "dict_item d k = (case d k of None \<Rightarrow> Inl (KeyError k) | Some v \<Rightarrow> Inr v)"

subsection \<open>Strings\<close>

text \<open>Decimal digits of a natural number, and \<^verbatim>\<open>str\<close> of an integer.\<close>

fun digits :: "nat \<Rightarrow> string" where
  "digits n =
     (if n < 10 then [''0123456789'' ! n]
      else digits (n div 10) @ [''0123456789'' ! (n mod 10)])"

declare digits.simps [simp del]

definition int_str :: "int \<Rightarrow> string" where
  "int_str i = (if i < 0 then CHR ''-'' # digits (nat (- i)) else digits (nat i))"

text \<open>
  \<^verbatim>\<open>str(x)\<close>. The text of a template object is the toolkit's; it is a parameter.
\<close>

fun py_str :: "(template \<Rightarrow> string) \<Rightarrow> pyval \<Rightarrow> string" where
  "py_str tstr PNone = ''None''"
| "py_str tstr (PBool b) = (if b then ''True'' else ''False'')"
| "py_str tstr (PInt i) = int_str i"
| "py_str tstr (PStr s) = s"
| "py_str tstr (PTemplate t) = tstr t"

text \<open>\<^verbatim>\<open>s.split(sep)\<close> for a separator of one character: never the empty list.\<close>

fun str_split :: "char \<Rightarrow> string \<Rightarrow> string list" where
  "str_split sep [] = [[]]"
| "str_split sep (c # cs) =
     (let r = str_split sep cs in if c = sep then [] # r else (c # hd r) # tl r)"

text \<open>\<^verbatim>\<open>sep.join(xs)\<close>.\<close>

fun str_join :: "string \<Rightarrow> string list \<Rightarrow> string" where
  "str_join sep [] = []"
| "str_join sep [x] = x"
| "str_join sep (x # y # ys) = x @ sep @ str_join sep (y # ys)"

text \<open>
  \<^verbatim>\<open>xs[i:j]\<close> with Python's rules: a negative index counts from the end, and
  both ends are clamped to the list.
\<close>

definition py_slice :: "'a list \<Rightarrow> int \<Rightarrow> int \<Rightarrow> 'a list" where
  "py_slice xs i j =
     (let n = int (length xs);
          a = (if i < 0 then max (n + i) 0 else min i n);
          b = (if j < 0 then max (n + j) 0 else min j n)
      in take (nat (b - a)) (drop (nat a) xs))"

text \<open>\<^verbatim>\<open>s.rfind(c)\<close>: the last index of the character, or -1.\<close>

definition rfind :: "char \<Rightarrow> string \<Rightarrow> int" where
  "rfind c s =
     (if c \<in> set s then int (length s) - 1 - int (length (takeWhile (\<lambda>x. x \<noteq> c) (rev s)))
      else - 1)"

text \<open>\<^verbatim>\<open>s.rstrip(c)\<close> for one character.\<close>

definition rstrip :: "char \<Rightarrow> string \<Rightarrow> string" where
  "rstrip c s = rev (dropWhile (\<lambda>x. x = c) (rev s))"

subsection \<open>\<^verbatim>\<open>os.path\<close> on POSIX\<close>

text \<open>
  \<^verbatim>\<open>os.path.join(a, *p)\<close>: a component that starts with a slash replaces what
  came before it; otherwise it is appended, after a slash unless the path so
  far is empty or ends with one.
\<close>

definition join_step :: "string \<Rightarrow> string \<Rightarrow> string" where
  "join_step path b =
     (if prefix ''/'' b then b
      else if path = [] \<or> last path = CHR ''/'' then path @ b
      else path @ ''/'' @ b)"

definition os_path_join :: "string \<Rightarrow> string list \<Rightarrow> string" where
  "os_path_join a p = foldl join_step a p"

text \<open>
  \<^verbatim>\<open>os.path.split(p)\<close>: head and tail around the last slash; trailing slashes
  are stripped from the head unless it consists of slashes only.
\<close>

definition os_path_split :: "string \<Rightarrow> string \<times> string" where
  "os_path_split p =
     (let i = nat (rfind CHR ''/'' p + 1);
          head = take i p;
          tail = drop i p;
          head = (if head \<noteq> [] \<and> head \<noteq> replicate (length head) CHR ''/''
                  then rstrip CHR ''/'' head else head)
      in (head, tail))"

text \<open>
  \<^verbatim>\<open>os.path.normpath(path)\<close>. The loop over the components is a fold; its body
  is \<open>normpath_step\<close>, with \<open>initial_slashes\<close> 0, 1 or 2.
\<close>

definition normpath_step :: "nat \<Rightarrow> string list \<Rightarrow> string \<Rightarrow> string list" where
  "normpath_step initial_slashes new_comps c =
     (if c = [] \<or> c = ''.'' then new_comps
      else if c \<noteq> ''..'' \<or> (initial_slashes = 0 \<and> new_comps = [])
               \<or> (new_comps \<noteq> [] \<and> last new_comps = ''..'')
           then new_comps @ [c]
      else if new_comps \<noteq> [] then butlast new_comps
      else new_comps)"

definition initial_slashes_of :: "string \<Rightarrow> nat" where
  "initial_slashes_of path =
     (if prefix ''/'' path
      then (if prefix ''//'' path \<and> \<not> prefix ''///'' path then 2 else 1)
      else 0)"

definition normpath_comps :: "string \<Rightarrow> string list" where
  "normpath_comps path =
     foldl (normpath_step (initial_slashes_of path)) [] (str_split CHR ''/'' path)"

definition os_path_normpath :: "string \<Rightarrow> string" where
  "os_path_normpath path =
     (if path = [] then ''.''
      else let initial_slashes = initial_slashes_of path;
               comps = normpath_comps path;
               path = str_join ''/'' comps;
               path = (if initial_slashes \<noteq> 0
                       then replicate initial_slashes CHR ''/'' @ path else path)
           in if path = [] then ''.'' else path)"

subsection \<open>The file system\<close>

text \<open>
  A file system maps the key of a path to a file or a directory. The key is the
  list of the components \<^verbatim>\<open>normpath\<close> leaves, after an empty component when the
  path is absolute; the root and the current directory always exist. Links,
  permissions and the contents of files are left out.
\<close>

datatype node = File | Dir

type_synonym filesystem = "string list \<rightharpoonup> node"

definition path_key :: "string \<Rightarrow> string list" where
  "path_key p = (if initial_slashes_of p = 0 then [] else ['''']) @ normpath_comps p"

definition node_at :: "filesystem \<Rightarrow> string list \<Rightarrow> node option" where
  "node_at fs k = (if k = [] \<or> k = [''''] then Some Dir else fs k)"

text \<open>\<^verbatim>\<open>os.path.exists(p)\<close>; the empty path names nothing.\<close>

definition os_path_exists :: "filesystem \<Rightarrow> string \<Rightarrow> bool" where
  "os_path_exists fs p = (p \<noteq> [] \<and> node_at fs (path_key p) \<noteq> None)"

text \<open>The key itself and the keys of the directories above it, the root apart.\<close>

definition ancestors :: "string list \<Rightarrow> string list list" where
  "ancestors k = map (\<lambda>i. take i k) [1..<Suc (length k)]"

text \<open>
  \<^verbatim>\<open>os.makedirs(p)\<close>: creates the directory and the missing ones above it; fails
  when the leaf exists or when a file stands in the way.
\<close>

definition makedirs :: "string \<Rightarrow> filesystem \<Rightarrow> error + filesystem" where
  "makedirs p fs =
     (if p = [] then Inl FileNotFoundError
      else if node_at fs (path_key p) \<noteq> None then Inl FileExistsError
      else if list_ex (\<lambda>a. node_at fs a = Some File) (ancestors (path_key p))
           then Inl NotADirectoryError
      else Inr (\<lambda>q. if q \<in> set (ancestors (path_key p)) then Some Dir else node_at fs q))"

text \<open>
  The toolkit's \<^verbatim>\<open>ensure_folder_exists(path)\<close>: nothing to do when the path
  exists, \<^verbatim>\<open>os.makedirs\<close> otherwise, every failure raised as the toolkit's error.
  A path that is not a string fails as well.
\<close>

definition ensure_folder_exists :: "pyval \<Rightarrow> filesystem \<Rightarrow> error + filesystem" where
  "ensure_folder_exists path fs =
     (case path of
        PStr p \<Rightarrow>
          if \<not> os_path_exists fs p
          then (case makedirs p fs of
                  Inl e \<Rightarrow> Inl (TankError ''Error creating folder'')
                | Inr fs' \<Rightarrow> Inr fs')
          else Inr fs
      | _ \<Rightarrow> Inl (TankError ''Error creating folder''))"

text \<open>
  \<^verbatim>\<open>shutil.copytree(src, dst)\<close>: lists the source (which must be a directory),
  creates the destination with \<^verbatim>\<open>os.makedirs\<close> (which must not exist), then
  copies every entry below the source to the same place below the destination.
  A destination two or more levels inside the source, below a directory of the
  source, makes the copy descend into what it has just written; that ends in an
  error.
\<close>

definition copytree :: "string \<Rightarrow> string \<Rightarrow> filesystem \<Rightarrow> error + filesystem" where
  "copytree src dst fs =
     (let s = path_key src; d = path_key dst
      in if src = [] \<or> node_at fs s = None then Inl FileNotFoundError
         else if node_at fs s = Some File then Inl NotADirectoryError
         else (case makedirs dst fs of
                 Inl e \<Rightarrow> Inl e
               | Inr fs1 \<Rightarrow>
                   if prefix s d \<and> length s + 2 \<le> length d
                      \<and> node_at fs (take (Suc (length s)) d) = Some Dir
                   then Inl ShutilError
                   else Inr (\<lambda>q. if prefix d q then node_at fs (s @ drop (length d) q)
                                  else fs1 q)))"

subsection \<open>Items, settings and the environment of the plugin\<close>

record item =
  properties :: "string \<rightharpoonup> pyval"

text \<open>A \<^verbatim>\<open>Setting\<close> instance; the plugin reads its \<^verbatim>\<open>value\<close> attribute.\<close>

record setting =
  setting_value :: pyval

type_synonym settings_dict = "string \<rightharpoonup> setting"

text \<open>The settings schema a plugin declares: per setting, a dictionary.\<close>

type_synonym schema = "string \<rightharpoonup> (string \<rightharpoonup> pyval)"

record date =
  year :: int
  month :: int
  day :: int

text \<open>
  The world the callbacks act on: the file system, and the state of the
  tracking service, which only the base class touches.
\<close>

record 't world =
  fs :: filesystem
  tracker :: 't

text \<open>
  What the plugin gets from outside:
  \<^item> \<open>templates\<close>: the templates of the configuration by name
    (\<^verbatim>\<open>get_template_by_name\<close> is a dictionary lookup there);
  \<^item> \<open>apply_fields\<close>: what a template makes of a set of fields, a path or an error;
  \<^item> \<open>template_str\<close>: the text \<^verbatim>\<open>str\<close> gives for a template object;
  \<^item> \<open>today\<close>: \<^verbatim>\<open>datetime.date.today()\<close>;
  \<^item> \<open>shotgun_work_dir\<close>: what the engine's \<^verbatim>\<open>get_shotgun_work_dir()\<close> returns;
  \<^item> \<open>base_settings\<close>, \<open>base_publish\<close>, \<open>base_finalize\<close>: the base class's
    \<^verbatim>\<open>settings\<close> property (\<open>None\<close> for Python's \<^verbatim>\<open>None\<close>) and its two callbacks.
\<close>

record 't env =
  templates :: "string \<rightharpoonup> template"
  apply_fields :: "template \<Rightarrow> (string \<rightharpoonup> pyval) \<Rightarrow> error + string"
  template_str :: "template \<Rightarrow> string"
  today :: date
  shotgun_work_dir :: string
  base_settings :: "schema option"
  base_publish :: "settings_dict \<Rightarrow> item \<Rightarrow> 't world \<Rightarrow> error + item \<times> 't world"
  base_finalize :: "settings_dict \<Rightarrow> item \<Rightarrow> 't world \<Rightarrow> error + item \<times> 't world"

text \<open>
  \<^verbatim>\<open>publisher.get_template_by_name(name)\<close>: the template registered under the
  name, \<^verbatim>\<open>None\<close> when there is none (also for a name that is not a string).
\<close>

definition get_template_by_name :: "'t env \<Rightarrow> pyval \<Rightarrow> pyval" where
  "get_template_by_name env template_name =
     (case template_name of
        PStr n \<Rightarrow> (case templates env n of None \<Rightarrow> PNone | Some t \<Rightarrow> PTemplate t)
      | _ \<Rightarrow> PNone)"

subsection \<open>The properties of the plugin\<close>

text \<open>
  \<^verbatim>\<open>settings\<close>: the base class's settings, updated with the setting of this
  plugin. \<^verbatim>\<open>super().settings or {}\<close> is the empty dictionary when the base class
  has \<^verbatim>\<open>None\<close> or an empty dictionary, and the base class's dictionary otherwise.
\<close>

definition settings :: "'t env \<Rightarrow> schema" where
  "settings env =
     (let base_settings =
            (case base_settings env of None \<Rightarrow> Map.empty | Some d \<Rightarrow> d);
          publish_template_setting =
            [''Publish Template'' \<mapsto>
               [''type'' \<mapsto> PStr ''template'',
                ''default'' \<mapsto> PNone,
                ''description'' \<mapsto>
                  PStr (''Template path for published work files. Should''
                        @ ''correspond to a template defined in ''
                        @ ''templates.yml.'')]]
      in base_settings ++ publish_template_setting)"

definition item_filters :: "string list" where
  "item_filters = [''unreal.asset.SkeletalMesh'']"

subsection \<open>The callbacks\<close>

record accept_result =
  accepted :: bool
  checked :: bool

text \<open>
  Every callback returns its result, or the exception it raised, together with
  the item as the call left it. Messages to the logger are left out.
\<close>

definition accept :: "'t env \<Rightarrow> settings_dict \<Rightarrow> item \<Rightarrow> (error + accept_result) \<times> item" where
  "accept env settings_arg item =
     (case settings_arg ''Publish Template'' of
        None \<Rightarrow> (Inl AttributeError, item)
      | Some publish_template_setting \<Rightarrow>
          let publish_template =
                get_template_by_name env (setting_value publish_template_setting);
              accepted = (if \<not> truthy publish_template then False else True);
              item = item\<lparr>properties :=
                       (properties item)(''publish_template'' \<mapsto> publish_template)\<rparr>
          in (Inr \<lparr>accepted = accepted, checked = True\<rparr>, item))"

definition validate :: "'t env \<Rightarrow> settings_dict \<Rightarrow> item \<Rightarrow> (error + bool) \<times> item" where
  "validate env settings_arg item =
     (let asset_path = dict_get (properties item) ''asset_path'';
          asset_name = dict_get (properties item) ''asset_name''
      in if \<not> truthy asset_path \<or> \<not> truthy asset_name then (Inr False, item)
         else
           let publish_template = dict_get (properties item) ''publish_template''
           in if \<not> truthy publish_template then (Inr False, item)
              else
                let fields = [''name'' \<mapsto> asset_name];
                    date = today env;
                    fields = fields(''YYYY'' \<mapsto> PInt (year date));
                    fields = fields(''MM'' \<mapsto> PInt (month date));
                    fields = fields(''DD'' \<mapsto> PInt (day date));
                    item = item\<lparr>properties :=
                             (properties item)(''publish_type'' \<mapsto> PStr ''Unreal Folder'')\<rparr>
                in (case publish_template of
                      PTemplate t \<Rightarrow>
                        (case apply_fields env t fields of
                           Inl e \<Rightarrow> (Inl e, item)
                         | Inr publish_path \<Rightarrow>
                             let publish_path = os_path_normpath publish_path;
                                 item = item\<lparr>properties :=
                                          (properties item)(''path'' \<mapsto> PStr publish_path)\<rparr>;
                                 destination_path = fst (os_path_split publish_path);
                                 item = item\<lparr>properties :=
                                          (properties item)
                                            (''destination_path'' \<mapsto> PStr destination_path)\<rparr>
                             in (Inr True, item))
                    | _ \<Rightarrow> (Inl AttributeError, item)))"

text \<open>
  \<^verbatim>\<open>publish\<close> returns the item and the world the base class's \<^verbatim>\<open>publish\<close> left,
  or the first exception raised on the way; what a failed copy leaves on disk
  is not described.
\<close>

definition publish ::
    "'t env \<Rightarrow> settings_dict \<Rightarrow> item \<Rightarrow> 't world \<Rightarrow> error + item \<times> 't world" where
  "publish env settings_arg item w =
     (case dict_item (properties item) ''destination_path'' of
        Inl e \<Rightarrow> Inl e
      | Inr destination_path \<Rightarrow>
     (case ensure_folder_exists destination_path (fs w) of
        Inl e \<Rightarrow> Inl e
      | Inr fs1 \<Rightarrow>
     (case dict_item (properties item) ''asset_path'' of
        Inl e \<Rightarrow> Inl e
      | Inr asset_path \<Rightarrow>
     (case dict_item (properties item) ''asset_name'' of
        Inl e \<Rightarrow> Inl e
      | Inr asset_name \<Rightarrow>
          let work_dir = shotgun_work_dir env;
              path = py_slice (str_split CHR ''/'' (py_str (template_str env) asset_path)) 2 (- 1);
              path = str_join ''/'' path;
              path = os_path_join work_dir [''Content'', path]
          in (case (destination_path, asset_name) of
                (PStr d, PStr n) \<Rightarrow>
                  let destination_path = os_path_join d [n]
                  in (case copytree path destination_path fs1 of
                        Inl e \<Rightarrow> Inl e
                      | Inr fs2 \<Rightarrow> base_publish env settings_arg item (w\<lparr>fs := fs2\<rparr>))
              | _ \<Rightarrow> Inl TypeError)))))"

definition finalize ::
    "'t env \<Rightarrow> settings_dict \<Rightarrow> item \<Rightarrow> 't world \<Rightarrow> error + item \<times> 't world" where
  "finalize env settings_arg item w = base_finalize env settings_arg item w"

subsection \<open>Normalised paths\<close>

text \<open>
  A path is normalised when \<^verbatim>\<open>os.path.normpath\<close> leaves it as it is. What such a
  path looks like is said without \<^verbatim>\<open>normpath\<close>: \<open>render k cs\<close> is the path with
  \<open>k\<close> leading slashes and the components \<open>cs\<close>; \<open>good_comps k cs\<close> says that
  no component is empty, a dot or contains a slash, and that \<^verbatim>\<open>..\<close> stands only
  at the front of a relative path; and \<open>path_normal p\<close> reads the leading slashes
  and the components off \<open>p\<close> itself: \<open>p\<close> is \<^verbatim>\<open>.\<close>, or it is not empty, starts
  with at most two slashes, and what follows them is empty or splits at its
  slashes into good components (so no doubled or trailing slash, no \<^verbatim>\<open>.\<close>, and
  no \<^verbatim>\<open>..\<close> after a name).
\<close>

definition is_normalized :: "string \<Rightarrow> bool" where
  "is_normalized p = (os_path_normpath p = p)"

definition render :: "nat \<Rightarrow> string list \<Rightarrow> string" where
  "render k cs = replicate k CHR ''/'' @ str_join ''/'' cs"

definition good_comps :: "nat \<Rightarrow> string list \<Rightarrow> bool" where
  "good_comps k cs =
     (list_all (\<lambda>c. c \<noteq> [] \<and> c \<noteq> ''.'' \<and> CHR ''/'' \<notin> set c) cs
      \<and> (if k = 0 then ''..'' \<notin> set (dropWhile (\<lambda>c. c = ''..'') cs) else ''..'' \<notin> set cs))"

definition path_normal :: "string \<Rightarrow> bool" where
  "path_normal p =
     (p = ''.''
      \<or> (p \<noteq> []
          \<and> (let k = length (takeWhile (\<lambda>c. c = CHR ''/'') p);
                   rest = drop k p;
                   cs = (if rest = [] then [] else str_split CHR ''/'' rest)
               in k \<le> 2 \<and> good_comps k cs)))"

subsection \<open>Which items reach \<^verbatim>\<open>accept\<close>\<close>

text \<open>
  The docstring of \<^verbatim>\<open>item_filters\<close>: only items matching an entry of the list
  are presented to \<^verbatim>\<open>accept\<close>, and an entry can be a glob pattern. The matcher
  is the publisher's; here a pattern is made of literal characters, \<^verbatim>\<open>*\<close> (any
  run of characters) and \<^verbatim>\<open>?\<close> (any one character).
\<close>

fun glob_match :: "string \<Rightarrow> string \<Rightarrow> bool" where
  "glob_match [] s = (s = [])"
| "glob_match (p # ps) [] = (p = CHR ''*'' \<and> glob_match ps [])"
| "glob_match (p # ps) (c # cs) =
     (if p = CHR ''*'' then glob_match ps (c # cs) \<or> glob_match (p # ps) cs
      else (p = CHR ''?'' \<or> p = c) \<and> glob_match ps cs)"

definition presented_to_accept :: "string \<Rightarrow> bool" where
  "presented_to_accept item_type = list_ex (\<lambda>f. glob_match f item_type) item_filters"

subsection \<open>An example configuration\<close>

text \<open>
  The template of the example \<^verbatim>\<open>/pub/{YYYY}/{MM}/{DD}/{name}\<close>: every field is
  written as \<^verbatim>\<open>str\<close> gives it; a missing field is the toolkit's error.
\<close>

definition pub_template :: template where
  "pub_template = Template ''/pub/{YYYY}/{MM}/{DD}/{name}''"

definition pub_apply_fields :: "(string \<rightharpoonup> pyval) \<Rightarrow> error + string" where
  "pub_apply_fields fv =
     (case (fv ''YYYY'', fv ''MM'', fv ''DD'', fv ''name'') of
        (Some y, Some m, Some d, Some n) \<Rightarrow>
          Inr (''/pub/'' @ py_str (\<lambda>t. []) y @ ''/'' @ py_str (\<lambda>t. []) m @ ''/''
               @ py_str (\<lambda>t. []) d @ ''/'' @ py_str (\<lambda>t. []) n)
      | _ \<Rightarrow> Inl (TankError ''missing field''))"

text \<open>
  An environment with that template registered as \<^verbatim>\<open>unreal_asset_publish\<close>,
  the 5th of March 2024 as today, \<^verbatim>\<open>/work\<close> as the work directory, and a base
  class that declares one setting and whose callbacks succeed without effect.
\<close>

definition example_env :: "unit env" where
  "example_env =
     \<lparr>templates = [''unreal_asset_publish'' \<mapsto> pub_template],
      apply_fields = (\<lambda>t. pub_apply_fields),
      template_str = (\<lambda>t. ''<Sgtk TemplatePath>''),
      today = \<lparr>year = 2024, month = 3, day = 5\<rparr>,
      shotgun_work_dir = ''/work'',
      base_settings = Some [''File Types'' \<mapsto> [''type'' \<mapsto> PStr ''list'']],
      base_publish = (\<lambda>s i w. Inr (i, w)),
      base_finalize = (\<lambda>s i w. Inr (i, w))\<rparr>"

text \<open>
  The asset of the example as the collector hands it over, as \<^verbatim>\<open>accept\<close> leaves
  it, and as \<^verbatim>\<open>validate\<close> leaves it for a destination directory \<open>d\<close>.
\<close>

definition example_item :: item where
  "example_item =
     \<lparr>properties =
        [''asset_path'' \<mapsto> PStr ''/Game/Characters/Hero/Hero_Skeleton'',
         ''asset_name'' \<mapsto> PStr ''Hero'']\<rparr>"

definition accepted_item :: item where
  "accepted_item =
     \<lparr>properties =
        [''asset_path'' \<mapsto> PStr ''/Game/Characters/Hero/Hero_Skeleton'',
         ''asset_name'' \<mapsto> PStr ''Hero'',
         ''publish_template'' \<mapsto> PTemplate pub_template]\<rparr>"

definition published_item :: "string \<Rightarrow> item" where
  "published_item d =
     \<lparr>properties =
        [''asset_path'' \<mapsto> PStr ''/Game/Characters/Hero/Hero_Skeleton'',
         ''asset_name'' \<mapsto> PStr ''Hero'',
         ''destination_path'' \<mapsto> PStr d]\<rparr>"

definition example_settings :: "string \<Rightarrow> settings_dict" where
  "example_settings template_name =
     [''Publish Template'' \<mapsto> \<lparr>setting_value = PStr template_name\<rparr>]"

text \<open>
  Three more templates: one whose definition is not in normal form, one that
  resolves to a bare name, and one with a field \<^verbatim>\<open>version\<close> that \<^verbatim>\<open>validate\<close> does
  not supply, so that resolving it fails, as the toolkit's \<^verbatim>\<open>apply_fields\<close> does
  for a missing field. \<open>configured_env\<close> is the example environment with all
  four templates; \<open>templated_item t\<close> is the asset as \<^verbatim>\<open>accept\<close> leaves it for
  the template \<open>t\<close>.
\<close>

definition untidy_template :: template where
  "untidy_template = Template ''/pub//{YYYY}/./{MM}/{DD}/tmp/../{name}/''"

definition relative_template :: template where
  "relative_template = Template ''{name}''"

definition versioned_template :: template where
  "versioned_template = Template ''/pub/{name}/v{version}''"

definition configured_apply_fields :: "template \<Rightarrow> (string \<rightharpoonup> pyval) \<Rightarrow> error + string" where
  "configured_apply_fields t fv =
     (if t = untidy_template then
        (case (fv ''YYYY'', fv ''MM'', fv ''DD'', fv ''name'') of
           (Some y, Some m, Some d, Some n) \<Rightarrow>
             Inr (''/pub//'' @ py_str (\<lambda>t. []) y @ ''/./'' @ py_str (\<lambda>t. []) m @ ''/''
                  @ py_str (\<lambda>t. []) d @ ''/tmp/../'' @ py_str (\<lambda>t. []) n @ ''/'')
         | _ \<Rightarrow> Inl (TankError ''missing field''))
      else if t = relative_template then
        (case fv ''name'' of
           Some n \<Rightarrow> Inr (py_str (\<lambda>t. []) n)
         | None \<Rightarrow> Inl (TankError ''missing field''))
      else if t = versioned_template then
        (case (fv ''name'', fv ''version'') of
           (Some n, Some v) \<Rightarrow>
             Inr (''/pub/'' @ py_str (\<lambda>t. []) n @ ''/v'' @ py_str (\<lambda>t. []) v)
         | _ \<Rightarrow> Inl (TankError ''missing field''))
      else pub_apply_fields fv)"

definition configured_env :: "unit env" where
  "configured_env = example_env\<lparr>apply_fields := configured_apply_fields\<rparr>"

definition templated_item :: "template \<Rightarrow> item" where
  "templated_item t =
     \<lparr>properties =
        [''asset_path'' \<mapsto> PStr ''/Game/Characters/Hero/Hero_Skeleton'',
         ''asset_name'' \<mapsto> PStr ''Hero'',
         ''publish_template'' \<mapsto> PTemplate t]\<rparr>"

text \<open>
  A file system with the exported asset below the work directory and an empty
  publish area; the same with the destination of the copy already there.
\<close>

definition example_fs :: filesystem where
  "example_fs =
     [['''', ''work''] \<mapsto> Dir,
      ['''', ''work'', ''Content''] \<mapsto> Dir,
      ['''', ''work'', ''Content'', ''Characters''] \<mapsto> Dir,
      ['''', ''work'', ''Content'', ''Characters'', ''Hero''] \<mapsto> Dir,
      ['''', ''work'', ''Content'', ''Characters'', ''Hero'', ''Hero_Skeleton.uasset'']
        \<mapsto> File,
      ['''', ''pub''] \<mapsto> Dir]"

definition example_world :: "unit world" where
  "example_world = \<lparr>fs = example_fs, tracker = ()\<rparr>"

definition occupied_world :: "unit world" where
  "occupied_world =
     \<lparr>fs = example_fs(['''', ''pub'', ''2024'', ''3'', ''5'', ''Hero''] \<mapsto> Dir),
      tracker = ()\<rparr>"

section \<open>Properties\<close>

subsection \<open>Splitting and joining strings\<close>

text \<open>
  Splitting a joined list gives the list back when no part contains the
  separator; \<^verbatim>\<open>xs[2:-1]\<close> drops the first two elements and the last one.
\<close>

lemma str_split_not_Nil: "str_split sep s \<noteq> []"
  by (induction s) (auto simp: Let_def)

lemma str_split_no_sep: "sep \<notin> set x \<Longrightarrow> str_split sep x = [x]"
  by (induction x) (auto simp: Let_def)

lemma str_split_append:
  "sep \<notin> set x \<Longrightarrow> str_split sep (x @ sep # rest) = x # str_split sep rest"
  by (induction x) (auto simp: Let_def)

lemma str_split_join:
  "xs \<noteq> [] \<Longrightarrow> \<forall>x\<in>set xs. sep \<notin> set x \<Longrightarrow> str_split sep (str_join [sep] xs) = xs"
proof (induction "[sep]" xs rule: str_join.induct)
  case 1
  then show ?case by simp
next
  case (2 x)
  then show ?case by (simp add: str_split_no_sep)
next
  case (3 x y ys)
  then show ?case by (simp add: str_split_append)
qed

lemma str_split_parts_no_sep: "x \<in> set (str_split sep s) \<Longrightarrow> sep \<notin> set x"
proof (induction s arbitrary: x)
  case Nil
  then show ?case by simp
next
  case (Cons c cs)
  have ne: "str_split sep cs \<noteq> []" by (rule str_split_not_Nil)
  show ?case
  proof (cases "c = sep")
    case True
    with Cons show ?thesis by (auto simp: Let_def)
  next
    case False
    with Cons.prems have "x = c # hd (str_split sep cs) \<or> x \<in> set (tl (str_split sep cs))"
      by (simp add: Let_def)
    then show ?thesis
    proof
      assume "x = c # hd (str_split sep cs)"
      moreover have "sep \<notin> set (hd (str_split sep cs))"
        using ne by (intro Cons.IH) simp
      ultimately show ?thesis using False by simp
    next
      assume "x \<in> set (tl (str_split sep cs))"
      then have "x \<in> set (str_split sep cs)" by (rule list.set_sel(2) [OF ne])
      then show ?thesis by (rule Cons.IH)
    qed
  qed
qed

lemma str_split_leading:
  "str_split sep (replicate k sep @ s) = replicate k [] @ str_split sep s"
  by (induction k) (simp_all add: Let_def)

lemma py_slice_2_m1: "py_slice xs 2 (- 1) = butlast (drop 2 xs)"
proof -
  have "take (length xs - 3) (drop 2 xs) = butlast (drop 2 xs)"
    by (simp add: butlast_conv_take)
  moreover have "nat (max (int (length xs) - 1) 0 - min 2 (int (length xs))) = length xs - 3"
    by (auto simp: max_def min_def)
  moreover have "nat (min 2 (int (length xs))) = min 2 (length xs)"
    by (auto simp: min_def)
  moreover have "drop (min 2 (length xs)) xs = drop 2 xs"
    by (cases "2 \<le> length xs") (simp_all add: min_def)
  ultimately show ?thesis
    by (simp add: py_slice_def Let_def)
qed

lemma asset_path_segments:
  assumes "\<forall>s\<in>set segs. CHR ''/'' \<notin> set s" and "segs \<noteq> []"
  shows "py_slice (str_split CHR ''/'' (''/Game/'' @ str_join ''/'' segs)) 2 (- 1) = butlast segs"
proof -
  have "str_split CHR ''/'' (''/Game/'' @ str_join ''/'' segs)
      = [] # ''Game'' # str_split CHR ''/'' (str_join ''/'' segs)"
    using str_split_append [of "CHR ''/''" "''Game''" "str_join ''/'' segs"]
    by (simp add: Let_def)
  also have "str_split CHR ''/'' (str_join ''/'' segs) = segs"
    using assms by (simp add: str_split_join)
  finally show ?thesis by (simp add: py_slice_2_m1)
qed

lemma str_join_Cons:
  "cs \<noteq> [] \<Longrightarrow> str_join sep (c # cs) = c @ sep @ str_join sep cs"
  by (cases cs) simp_all

lemma str_join_snoc:
  "cs \<noteq> [] \<Longrightarrow> str_join sep (cs @ [c]) = str_join sep cs @ sep @ c"
  by (induction sep cs rule: str_join.induct) (simp_all add: str_join_Cons)

lemma str_join_head:
  "cs \<noteq> [] \<Longrightarrow> hd cs \<noteq> [] \<Longrightarrow> \<exists>rest. str_join sep cs = hd (hd cs) # rest"
  by (cases cs; cases "tl cs"; cases "hd cs") auto

lemma str_join_last:
  "cs \<noteq> [] \<Longrightarrow> last cs \<noteq> [] \<Longrightarrow>
   str_join sep cs \<noteq> [] \<and> last (str_join sep cs) = last (last cs)"
  by (induction sep cs rule: str_join.induct) auto

subsection \<open>Joining and splitting paths\<close>

lemma join_two:
  "os_path_join d [n] =
     (if prefix ''/'' n then n else if d = [] \<or> last d = CHR ''/'' then d @ n else d @ ''/'' @ n)"
  by (simp add: os_path_join_def join_step_def)

lemma join_under:
  "wd \<noteq> [] \<Longrightarrow> last wd \<noteq> CHR ''/'' \<Longrightarrow> \<not> prefix ''/'' r \<Longrightarrow>
   os_path_join wd [''Content'', r] = wd @ ''/Content/'' @ r"
  by (simp add: os_path_join_def join_step_def)

lemma rfind_absent: "c \<notin> set s \<Longrightarrow> rfind c s = - 1"
  by (simp add: rfind_def)

lemma rfind_last_occurrence: "c \<notin> set t \<Longrightarrow> rfind c (h @ c # t) = int (length h)"
proof -
  assume "c \<notin> set t"
  then have "takeWhile (\<lambda>x. x \<noteq> c) (rev t @ c # rev h) = rev t"
    by (auto simp: takeWhile_tail takeWhile_eq_all_conv)
  then show ?thesis by (simp add: rfind_def)
qed

lemma os_path_split_no_slash: "CHR ''/'' \<notin> set s \<Longrightarrow> os_path_split s = ([], s)"
  by (simp add: os_path_split_def rfind_absent)

lemma os_path_split_at_last_slash:
  assumes "CHR ''/'' \<notin> set t"
  shows "os_path_split (h @ CHR ''/'' # t) =
      (if h @ ''/'' \<noteq> replicate (Suc (length h)) CHR ''/'' then rstrip CHR ''/'' (h @ ''/'')
       else h @ ''/'', t)"
proof -
  have "nat (rfind CHR ''/'' (h @ CHR ''/'' # t) + 1) = Suc (length h)"
    using assms by (simp add: rfind_last_occurrence)
  moreover have "take (Suc (length h)) (h @ CHR ''/'' # t) = h @ ''/''" by simp
  moreover have "drop (Suc (length h)) (h @ CHR ''/'' # t) = t" by simp
  ultimately show ?thesis by (simp add: os_path_split_def Let_def)
qed

lemma rstrip_one: "x \<noteq> [] \<Longrightarrow> last x \<noteq> c \<Longrightarrow> rstrip c (x @ [c]) = x"
proof -
  assume "x \<noteq> []" "last x \<noteq> c"
  then have "dropWhile (\<lambda>y. y = c) (rev x) = rev x"
    by (cases "rev x") (auto simp: last_rev [symmetric] simp del: last_rev)
  then show ?thesis by (simp add: rstrip_def)
qed

subsection \<open>What \<^verbatim>\<open>normpath\<close> returns\<close>

text \<open>
  The loop of \<^verbatim>\<open>normpath\<close> keeps its list of components good; a good list is
  read back unchanged from the path it renders to, so \<^verbatim>\<open>normpath\<close> is
  idempotent, and the head \<^verbatim>\<open>split\<close> cuts off a normalised path renders the
  same list without its last component.
\<close>

lemma dropWhile_snoc_subset:
  "set (dropWhile P (butlast xs)) \<subseteq> set (dropWhile P xs)"
proof (cases "xs = []")
  case True
  then show ?thesis by simp
next
  case False
  then have xs: "xs = butlast xs @ [last xs]" by simp
  show ?thesis
  proof (cases "\<forall>x\<in>set (butlast xs). P x")
    case True
    then have "dropWhile P (butlast xs) = []" by (simp add: dropWhile_eq_Nil_conv)
    then show ?thesis by (simp only: list.set empty_subsetI)
  next
    case False
    then obtain x where "x \<in> set (butlast xs)" "\<not> P x" by blast
    then have "dropWhile P (butlast xs @ [last xs]) = dropWhile P (butlast xs) @ [last xs]"
      by (rule dropWhile_append1)
    with xs show ?thesis by (metis set_append Un_upper1)
  qed
qed

lemma good_comps_step:
  assumes "good_comps k acc" and "CHR ''/'' \<notin> set c"
  shows "good_comps k (normpath_step k acc c)"
proof -
  let ?P = "\<lambda>c. c = ''..''"
  consider (skip) "c = [] \<or> c = ''.''"
    | (plain) "c \<noteq> []" "c \<noteq> ''.''" "c \<noteq> ''..''"
    | (up_keep) "c = ''..''" "(k = 0 \<and> acc = []) \<or> (acc \<noteq> [] \<and> last acc = ''..'')"
    | (up_pop) "c = ''..''" "\<not> ((k = 0 \<and> acc = []) \<or> (acc \<noteq> [] \<and> last acc = ''..''))" "acc \<noteq> []"
    | (up_root) "c = ''..''" "\<not> ((k = 0 \<and> acc = []) \<or> (acc \<noteq> [] \<and> last acc = ''..''))" "acc = []"
    by blast
  then show ?thesis
  proof cases
    case skip
    then show ?thesis using assms(1) by (auto simp: normpath_step_def)
  next
    case plain
    then have step: "normpath_step k acc c = acc @ [c]" by (simp add: normpath_step_def)
    have "''..'' \<notin> set (dropWhile ?P (acc @ [c]))" if "k = 0"
    proof (cases "\<forall>x\<in>set acc. ?P x")
      case True
      then show ?thesis using plain by simp
    next
      case False
      then obtain x where "x \<in> set acc" "\<not> ?P x" by blast
      then have "dropWhile ?P (acc @ [c]) = dropWhile ?P acc @ [c]" by (rule dropWhile_append1)
      then show ?thesis using assms(1) that plain by (simp add: good_comps_def)
    qed
    then show ?thesis
      using assms plain by (auto simp: step good_comps_def)
  next
    case up_keep
    then have step: "normpath_step k acc c = acc @ [''..'']" by (auto simp: normpath_step_def)
    have k0: "k = 0"
    proof (rule ccontr)
      assume "k \<noteq> 0"
      with assms(1) have "''..'' \<notin> set acc" by (simp add: good_comps_def)
      with up_keep(2) \<open>k \<noteq> 0\<close> show False by (metis last_in_set)
    qed
    have all: "\<forall>x\<in>set acc. ?P x"
    proof (cases "acc = []")
      case True
      then show ?thesis by simp
    next
      case False
      with up_keep(2) have l: "last acc = ''..''" by simp
      have "dropWhile ?P acc = []"
      proof (rule ccontr)
        assume ne: "dropWhile ?P acc \<noteq> []"
        then have "last (dropWhile ?P acc) = last acc"
          by (metis takeWhile_dropWhile_id last_appendR)
        with ne l have "''..'' \<in> set (dropWhile ?P acc)" by (metis last_in_set)
        with assms(1) k0 show False by (simp add: good_comps_def)
      qed
      then show ?thesis by (simp add: dropWhile_eq_Nil_conv)
    qed
    then have "dropWhile ?P (acc @ [''..'']) = []" by (simp add: dropWhile_eq_Nil_conv)
    moreover have "list_all (\<lambda>c. c \<noteq> [] \<and> c \<noteq> ''.'' \<and> CHR ''/'' \<notin> set c) (acc @ [''..''])"
      using assms(1) by (simp add: good_comps_def)
    ultimately show ?thesis
      unfolding step using k0 by (simp add: good_comps_def)
  next
    case up_pop
    then have step: "normpath_step k acc c = butlast acc" by (auto simp: normpath_step_def)
    have "list_all Q (butlast acc)" if "list_all Q acc" for Q :: "string \<Rightarrow> bool"
      using that by (auto simp: list_all_iff dest: in_set_butlastD)
    moreover have "''..'' \<notin> set (butlast acc)" if "''..'' \<notin> set acc"
      using that by (auto dest: in_set_butlastD)
    moreover have "''..'' \<notin> set (dropWhile ?P (butlast acc))" if "''..'' \<notin> set (dropWhile ?P acc)"
      using that dropWhile_snoc_subset [of ?P acc] by blast
    ultimately show ?thesis
      using assms(1) by (simp add: step good_comps_def)
  next
    case up_root
    then have "normpath_step k acc c = acc" by (auto simp: normpath_step_def)
    then show ?thesis using assms(1) by simp
  qed
qed

lemma good_comps_foldl:
  "good_comps k acc \<Longrightarrow> \<forall>c\<in>set cs. CHR ''/'' \<notin> set c \<Longrightarrow>
   good_comps k (foldl (normpath_step k) acc cs)"
  by (induction cs arbitrary: acc) (simp_all add: good_comps_step)

lemma good_comps_normpath_comps: "good_comps (initial_slashes_of p) (normpath_comps p)"
  unfolding normpath_comps_def
  by (rule good_comps_foldl) (auto simp: good_comps_def dest: str_split_parts_no_sep)

lemma good_comps_refold:
  "good_comps k (acc @ cs) \<Longrightarrow> foldl (normpath_step k) acc cs = acc @ cs"
proof (induction cs arbitrary: acc)
  case Nil
  then show ?case by simp
next
  case (Cons c cs)
  let ?P = "\<lambda>c. c = ''..''"
  from Cons.prems have c: "c \<noteq> []" "c \<noteq> ''.''"
    by (simp_all add: good_comps_def)
  have "normpath_step k acc c = acc @ [c]"
  proof (cases "c = ''..''")
    case False
    with c show ?thesis by (simp add: normpath_step_def)
  next
    case True
    have k0: "k = 0"
      using Cons.prems True by (auto simp: good_comps_def split: if_splits)
    have "\<forall>x\<in>set acc. ?P x"
    proof (rule ccontr)
      assume "\<not> (\<forall>x\<in>set acc. ?P x)"
      then obtain x where "x \<in> set acc" "\<not> ?P x" by blast
      then have "dropWhile ?P (acc @ c # cs) = dropWhile ?P acc @ c # cs"
        by (rule dropWhile_append1)
      with Cons.prems k0 True show False by (simp add: good_comps_def)
    qed
    then have "acc = [] \<or> (acc \<noteq> [] \<and> last acc = ''..'')"
      by (metis last_in_set)
    with k0 True show ?thesis by (auto simp: normpath_step_def)
  qed
  moreover have "foldl (normpath_step k) (acc @ [c]) cs = (acc @ [c]) @ cs"
    using Cons.prems by (intro Cons.IH) simp
  ultimately show ?case by simp
qed

lemma good_comps_head:
  assumes "good_comps k cs" and "cs \<noteq> []"
  obtains c rest where "str_join ''/'' cs = c # rest" and "c \<noteq> CHR ''/''"
proof -
  from assms have "hd cs \<noteq> []" and "CHR ''/'' \<notin> set (hd cs)"
    by (cases cs; simp add: good_comps_def)+
  moreover from this assms(2) obtain rest where "str_join ''/'' cs = hd (hd cs) # rest"
    using str_join_head by blast
  ultimately show ?thesis
    using that by (metis list.set_sel(1))
qed

lemma initial_slashes_render:
  assumes "good_comps k cs" and "k \<le> 2"
  shows "initial_slashes_of (render k cs) = k"
proof -
  from assms(2) consider "k = 0" | "k = 1" | "k = 2" by linarith
  then show ?thesis
  proof cases
    case 1
    show ?thesis
    proof (cases "cs = []")
      case True
      with 1 show ?thesis by (simp add: render_def initial_slashes_of_def)
    next
      case False
      with assms(1) obtain c rest where "str_join ''/'' cs = c # rest" "c \<noteq> CHR ''/''"
        by (rule good_comps_head)
      with 1 show ?thesis by (simp add: render_def initial_slashes_of_def)
    qed
  next
    case 2
    show ?thesis
    proof (cases "cs = []")
      case True
      with 2 show ?thesis by (simp add: render_def initial_slashes_of_def)
    next
      case False
      with assms(1) obtain c rest where "str_join ''/'' cs = c # rest" "c \<noteq> CHR ''/''"
        by (rule good_comps_head)
      with 2 show ?thesis by (simp add: render_def initial_slashes_of_def)
    qed
  next
    case 3
    then have r: "replicate k CHR ''/'' = ''//''" by (simp add: numeral_2_eq_2)
    show ?thesis
    proof (cases "cs = []")
      case True
      with 3 r show ?thesis by (simp add: render_def initial_slashes_of_def)
    next
      case False
      with assms(1) obtain c rest where "str_join ''/'' cs = c # rest" "c \<noteq> CHR ''/''"
        by (rule good_comps_head)
      with 3 r show ?thesis by (simp add: render_def initial_slashes_of_def)
    qed
  qed
qed

lemma foldl_step_empty:
  "foldl (normpath_step k) acc (replicate n []) = acc"
  by (induction n) (simp_all add: normpath_step_def)

lemma normpath_comps_render:
  assumes "good_comps k cs" and "k \<le> 2"
  shows "normpath_comps (render k cs) = cs"
proof -
  have folded: "foldl (normpath_step k) [] (str_split CHR ''/'' (str_join ''/'' cs)) = cs"
  proof (cases "cs = []")
    case True
    then show ?thesis by (simp add: normpath_step_def)
  next
    case False
    moreover have "\<forall>x\<in>set cs. CHR ''/'' \<notin> set x"
      using assms(1) by (simp add: good_comps_def list_all_iff)
    ultimately have "str_split CHR ''/'' (str_join ''/'' cs) = cs"
      by (rule str_split_join)
    then show ?thesis using assms(1) by (simp add: good_comps_refold)
  qed
  have "normpath_comps (render k cs)
      = foldl (normpath_step k) [] (str_split CHR ''/'' (render k cs))"
    by (simp add: normpath_comps_def initial_slashes_render [OF assms])
  also have "str_split CHR ''/'' (render k cs)
      = replicate k [] @ str_split CHR ''/'' (str_join ''/'' cs)"
    by (simp add: render_def str_split_leading)
  finally show ?thesis
    using folded by (simp add: foldl_step_empty)
qed

lemma normpath_render:
  assumes "good_comps k cs" and "k \<le> 2" and "render k cs \<noteq> []"
  shows "os_path_normpath (render k cs) = render k cs"
proof -
  have "os_path_normpath (render k cs) =
      (let path = str_join ''/'' cs;
           path = (if k \<noteq> 0 then replicate k CHR ''/'' @ path else path)
       in if path = [] then ''.'' else path)"
    using assms(3)
    by (simp add: os_path_normpath_def normpath_comps_render [OF assms(1,2)]
        initial_slashes_render [OF assms(1,2)])
  also have "\<dots> = render k cs"
    using assms(3) by (auto simp: render_def Let_def)
  finally show ?thesis .
qed

lemma initial_slashes_le_2: "initial_slashes_of p \<le> 2"
  by (simp add: initial_slashes_of_def)

lemma normpath_as_render:
  "os_path_normpath p =
     (if render (initial_slashes_of p) (normpath_comps p) = [] then ''.''
      else render (initial_slashes_of p) (normpath_comps p))"
proof (cases "p = []")
  case True
  then show ?thesis
    by (simp add: os_path_normpath_def render_def initial_slashes_of_def normpath_comps_def
        normpath_step_def)
next
  case False
  then show ?thesis
    by (auto simp: os_path_normpath_def render_def Let_def)
qed

lemma normpath_dot: "os_path_normpath ''.'' = ''.''"
  by (simp add: os_path_normpath_def initial_slashes_of_def normpath_comps_def normpath_step_def)

lemma normpath_idem: "os_path_normpath (os_path_normpath p) = os_path_normpath p"
proof (cases "render (initial_slashes_of p) (normpath_comps p) = []")
  case True
  then show ?thesis by (simp add: normpath_as_render [of p] normpath_dot)
next
  case False
  then have "os_path_normpath p = render (initial_slashes_of p) (normpath_comps p)"
    by (simp add: normpath_as_render [of p])
  moreover have "os_path_normpath (render (initial_slashes_of p) (normpath_comps p))
      = render (initial_slashes_of p) (normpath_comps p)"
    using good_comps_normpath_comps initial_slashes_le_2 False by (rule normpath_render)
  ultimately show ?thesis by simp
qed

lemma split_render:
  assumes "good_comps k cs" and "k \<le> 2"
  shows "fst (os_path_split (render k cs)) = render k (butlast cs)"
proof (cases "butlast cs = []")
  case True
  then consider "cs = []" | c where "cs = [c]"
    by (cases cs rule: rev_cases) auto
  then have tail: "\<exists>t. render k cs = replicate k CHR ''/'' @ t \<and> CHR ''/'' \<notin> set t"
  proof cases
    case 1
    then show ?thesis by (simp add: render_def)
  next
    case 2
    with assms(1) show ?thesis by (simp add: render_def good_comps_def)
  qed
  then obtain t where t: "render k cs = replicate k CHR ''/'' @ t" "CHR ''/'' \<notin> set t"
    by blast
  show ?thesis
  proof (cases k)
    case 0
    with t True show ?thesis by (simp add: os_path_split_no_slash render_def)
  next
    case (Suc j)
    then have "render k cs = replicate j CHR ''/'' @ CHR ''/'' # t"
      using t(1) by (simp add: replicate_append_same)
    then have "fst (os_path_split (render k cs)) = replicate j CHR ''/'' @ ''/''"
      using t(2) by (simp add: os_path_split_at_last_slash replicate_append_same)
    with Suc True show ?thesis by (simp add: render_def replicate_append_same)
  qed
next
  case False
  then have cs: "cs = butlast cs @ [last cs]" by (cases cs rule: rev_cases) auto
  let ?bs = "butlast cs"
  let ?h = "replicate k CHR ''/'' @ str_join ''/'' ?bs"
  have ne: "cs \<noteq> []" using False by auto
  have all: "\<forall>c\<in>set cs. c \<noteq> [] \<and> c \<noteq> ''.'' \<and> CHR ''/'' \<notin> set c"
    using assms(1) by (simp add: good_comps_def list_all_iff)
  have good_last: "CHR ''/'' \<notin> set (last cs)"
    using all ne by (simp add: last_in_set)
  have "last ?bs \<in> set cs"
    using False by (meson in_set_butlastD last_in_set)
  with all have lb: "last ?bs \<noteq> []" "CHR ''/'' \<notin> set (last ?bs)"
    by blast+
  from str_join_last [OF False lb(1)]
  have j: "str_join ''/'' ?bs \<noteq> []" "last (str_join ''/'' ?bs) = last (last ?bs)"
    by simp_all
  have "last (last ?bs) \<in> set (last ?bs)"
    using lb(1) by (rule last_in_set)
  with lb(2) have "last (last ?bs) \<noteq> CHR ''/''" by metis
  with j have lh: "?h \<noteq> []" "last ?h \<noteq> CHR ''/''"
    by simp_all
  have "render k cs = ?h @ CHR ''/'' # last cs"
    using str_join_snoc [OF False, of "''/''" "last cs"] cs by (simp add: render_def)
  then have "fst (os_path_split (render k cs)) =
      (if ?h @ ''/'' \<noteq> replicate (Suc (length ?h)) CHR ''/'' then rstrip CHR ''/'' (?h @ ''/'')
       else ?h @ ''/'')"
    by (simp only: os_path_split_at_last_slash [OF good_last] fst_conv)
  moreover have "?h @ ''/'' \<noteq> replicate (Suc (length ?h)) CHR ''/''"
  proof
    assume "?h @ ''/'' = replicate (Suc (length ?h)) CHR ''/''"
    then have "set (?h @ ''/'') \<subseteq> {CHR ''/''}" by (metis set_replicate_conv_if empty_subsetI subset_refl)
    with lh show False by (metis Un_iff last_in_set set_append singletonD subsetD)
  qed
  moreover have "rstrip CHR ''/'' (?h @ ''/'') = ?h"
    using lh by (rule rstrip_one)
  ultimately show ?thesis by (simp add: render_def)
qed

lemma good_comps_butlast: "good_comps k cs \<Longrightarrow> good_comps k (butlast cs)"
  using dropWhile_snoc_subset [of "\<lambda>c. c = ''..''" cs]
  by (auto simp: good_comps_def list_all_iff dest: in_set_butlastD)

lemma split_normpath_head:
  assumes "fst (os_path_split (os_path_normpath p)) \<noteq> []"
  shows "os_path_normpath (fst (os_path_split (os_path_normpath p)))
      = fst (os_path_split (os_path_normpath p))"
proof -
  let ?k = "initial_slashes_of p" and ?cs = "normpath_comps p"
  have good: "good_comps ?k ?cs" by (rule good_comps_normpath_comps)
  have "render ?k ?cs \<noteq> []"
  proof
    assume "render ?k ?cs = []"
    then have "os_path_normpath p = ''.''" by (simp add: normpath_as_render [of p])
    with assms show False by (simp add: os_path_split_no_slash)
  qed
  then have "os_path_normpath p = render ?k ?cs" by (simp add: normpath_as_render [of p])
  then have head: "fst (os_path_split (os_path_normpath p)) = render ?k (butlast ?cs)"
    using good initial_slashes_le_2 by (simp add: split_render)
  moreover have "os_path_normpath (render ?k (butlast ?cs)) = render ?k (butlast ?cs)"
    using good_comps_butlast [OF good] initial_slashes_le_2 assms
    unfolding head by (rule normpath_render)
  ultimately show ?thesis by simp
qed

lemma takeWhile_render:
  assumes "good_comps k cs"
  shows "takeWhile (\<lambda>c. c = CHR ''/'') (render k cs) = replicate k CHR ''/''"
proof (cases "cs = []")
  case True
  then show ?thesis by (simp add: render_def takeWhile_eq_all_conv [THEN iffD2])
next
  case False
  with assms obtain c rest where j: "str_join ''/'' cs = c # rest" "c \<noteq> CHR ''/''"
    by (rule good_comps_head)
  have "takeWhile (\<lambda>c. c = CHR ''/'') (replicate k CHR ''/'' @ c # rest)
      = replicate k CHR ''/'' @ takeWhile (\<lambda>c. c = CHR ''/'') (c # rest)"
    by (rule takeWhile_append2) simp
  with j show ?thesis by (simp add: render_def)
qed

lemma path_normal_render:
  assumes "good_comps k cs" and "k \<le> 2" and "render k cs \<noteq> []"
  shows "path_normal (render k cs)"
proof -
  have k: "length (takeWhile (\<lambda>c. c = CHR ''/'') (render k cs)) = k"
    by (simp add: takeWhile_render [OF assms(1)])
  have rest: "drop k (render k cs) = str_join ''/'' cs"
    by (simp add: render_def)
  have "(if str_join ''/'' cs = [] then [] else str_split CHR ''/'' (str_join ''/'' cs)) = cs"
  proof (cases "cs = []")
    case True
    then show ?thesis by simp
  next
    case False
    with assms(1) obtain c rest where "str_join ''/'' cs = c # rest" "c \<noteq> CHR ''/''"
      by (rule good_comps_head)
    then have ne: "str_join ''/'' cs \<noteq> []" by simp
    have "\<forall>x\<in>set cs. CHR ''/'' \<notin> set x"
      using assms(1) by (simp add: good_comps_def list_all_iff)
    with False have "str_split CHR ''/'' (str_join ''/'' cs) = cs"
      by (rule str_split_join)
    with ne show ?thesis by (simp only: if_False)
  qed
  then show ?thesis
    unfolding path_normal_def Let_def k rest using assms by simp
qed

lemma path_normal_normpath: "path_normal (os_path_normpath p)"
proof (cases "render (initial_slashes_of p) (normpath_comps p) = []")
  case True
  then show ?thesis by (simp add: normpath_as_render [of p] path_normal_def)
next
  case False
  then have "os_path_normpath p = render (initial_slashes_of p) (normpath_comps p)"
    by (simp add: normpath_as_render [of p])
  moreover have "path_normal (render (initial_slashes_of p) (normpath_comps p))"
    using good_comps_normpath_comps initial_slashes_le_2 False by (rule path_normal_render)
  ultimately show ?thesis by simp
qed

lemma rstrip_not_all:
  assumes "s \<noteq> replicate (length s) c"
  shows "rstrip c s \<noteq> []"
proof
  assume "rstrip c s = []"
  then have "\<forall>x\<in>set s. x = c"
    by (simp add: rstrip_def dropWhile_eq_Nil_conv)
  then have "replicate (length s) c = s" by (rule replicate_length_same)
  with assms show False by simp
qed

lemma os_path_split_head_nonempty:
  assumes "CHR ''/'' \<in> set q"
  shows "fst (os_path_split q) \<noteq> []"
proof -
  from assms obtain h t where q: "q = h @ CHR ''/'' # t" and t: "CHR ''/'' \<notin> set t"
    by (meson split_list_last)
  show ?thesis
    unfolding q os_path_split_at_last_slash [OF t]
    by (simp add: rstrip_not_all)
qed

lemma split_normpath_head_normal:
  assumes "fst (os_path_split (os_path_normpath p)) \<noteq> []"
  shows "path_normal (fst (os_path_split (os_path_normpath p)))"
proof -
  let ?k = "initial_slashes_of p" and ?cs = "normpath_comps p"
  have good: "good_comps ?k ?cs" by (rule good_comps_normpath_comps)
  have "render ?k ?cs \<noteq> []"
  proof
    assume "render ?k ?cs = []"
    then have "os_path_normpath p = ''.''" by (simp add: normpath_as_render [of p])
    with assms show False by (simp add: os_path_split_no_slash)
  qed
  then have "os_path_normpath p = render ?k ?cs" by (simp add: normpath_as_render [of p])
  then have head: "fst (os_path_split (os_path_normpath p)) = render ?k (butlast ?cs)"
    using good initial_slashes_le_2 by (simp add: split_render)
  have "path_normal (render ?k (butlast ?cs))"
    using good_comps_butlast [OF good] initial_slashes_le_2 assms
    unfolding head by (rule path_normal_render)
  then show ?thesis by (simp add: head)
qed

lemma absolute_normpath_has_slash:
  assumes "prefix ''/'' p"
  shows "CHR ''/'' \<in> set (os_path_normpath p)"
proof -
  from assms have "initial_slashes_of p \<noteq> 0"
    by (simp add: initial_slashes_of_def)
  then obtain j where "initial_slashes_of p = Suc j"
    by (cases "initial_slashes_of p") auto
  then have "render (initial_slashes_of p) (normpath_comps p)
      = CHR ''/'' # replicate j CHR ''/'' @ str_join ''/'' (normpath_comps p)"
    by (simp add: render_def)
  then show ?thesis by (simp add: normpath_as_render [of p])
qed

subsection \<open>The file system\<close>

text \<open>
  Creating directories keeps what exists; the recursive copy refuses a
  destination that exists and, when it succeeds, puts below the destination
  what was below the source.
\<close>

lemma node_at_makedirs:
  "makedirs p fsys = Inr fsys1 \<Longrightarrow> node_at fsys k \<noteq> None \<Longrightarrow> node_at fsys1 k \<noteq> None"
  by (auto simp: makedirs_def node_at_def split: if_splits)

lemma ensure_folder_exists_keeps:
  "ensure_folder_exists v fsys = Inr fsys1 \<Longrightarrow> node_at fsys k \<noteq> None \<Longrightarrow> node_at fsys1 k \<noteq> None"
  by (auto simp: ensure_folder_exists_def split: pyval.splits if_splits sum.splits
           dest: node_at_makedirs)

lemma ensure_folder_exists_keeps_path:
  "ensure_folder_exists v fsys = Inr fsys1 \<Longrightarrow> os_path_exists fsys p \<Longrightarrow> os_path_exists fsys1 p"
  by (auto simp: os_path_exists_def dest: ensure_folder_exists_keeps)

lemma copytree_existing_destination:
  "os_path_exists fsys dst \<Longrightarrow> \<exists>e. copytree src dst fsys = Inl e"
  by (auto simp: copytree_def os_path_exists_def makedirs_def Let_def)

lemma copytree_copies:
  "copytree src dst fsys = Inr fsys2 \<Longrightarrow>
   fsys2 (path_key dst @ rest) = node_at fsys (path_key src @ rest)"
  by (auto simp: copytree_def Let_def split: if_splits sum.splits)

lemma ancestors_Nil: "ancestors [] = []"
  by (simp add: ancestors_def)

lemma ancestors_Cons: "ancestors (x # xs) = [x] # map ((#) x) (ancestors xs)"
proof -
  have "[1..<Suc (Suc (length xs))] = 1 # [Suc 1..<Suc (Suc (length xs))]"
    by (rule upt_conv_Cons) simp
  also have "[Suc 1..<Suc (Suc (length xs))] = map Suc [1..<Suc (length xs)]"
    by (simp only: map_Suc_upt)
  finally show ?thesis
    by (simp add: ancestors_def comp_def del: upt_Suc)
qed

lemma publish_unfold:
  assumes "properties item ''asset_path'' = Some (PStr a)"
    and "properties item ''destination_path'' = Some (PStr d)"
    and "properties item ''asset_name'' = Some (PStr n)"
  shows "publish env settings_arg item w =
      (case ensure_folder_exists (PStr d) (fs w) of
         Inl e \<Rightarrow> Inl e
       | Inr fs1 \<Rightarrow>
           (case copytree
                   (os_path_join (shotgun_work_dir env)
                      [''Content'', str_join ''/'' (py_slice (str_split CHR ''/'' a) 2 (- 1))])
                   (os_path_join d [n]) fs1 of
              Inl e \<Rightarrow> Inl e
            | Inr fs2 \<Rightarrow> base_publish env settings_arg item (w\<lparr>fs := fs2\<rparr>)))"
  using assms by (simp add: publish_def dict_item_def Let_def split: sum.splits)

text \<open>The keys of the paths of the example, and the first step of its run.\<close>

lemmas path_eval =
  path_key_def normpath_comps_def initial_slashes_of_def normpath_step_def
  os_path_join_def join_step_def

lemma key_destination: "path_key ''/pub/2024/3/5/Hero'' = ['''', ''pub'', ''2024'', ''3'', ''5'', ''Hero'']"
  by (simp add: path_eval)

lemma key_source: "path_key ''/work/Content/Characters/Hero'' = ['''', ''work'', ''Content'', ''Characters'', ''Hero'']"
  by (simp add: path_eval)

lemma key_publish_area: "path_key ''/pub/2024/3/5'' = ['''', ''pub'', ''2024'', ''3'', ''5'']"
  by (simp add: path_eval)

lemma example_ensure_folder:
  "ensure_folder_exists (PStr ''/pub/2024/3/5'') example_fs =
     Inr (\<lambda>q. if q \<in> set (ancestors ['''', ''pub'', ''2024'', ''3'', ''5'']) then Some Dir
               else node_at example_fs q)"
proof -
  have absent: "node_at example_fs ['''', ''pub'', ''2024'', ''3'', ''5''] = None"
    by (simp add: node_at_def example_fs_def)
  have free: "\<not> list_ex (\<lambda>a. node_at example_fs a = Some File)
      (ancestors ['''', ''pub'', ''2024'', ''3'', ''5''])"
    by (simp add: ancestors_Nil ancestors_Cons node_at_def example_fs_def)
  show ?thesis
    by (simp add: ensure_folder_exists_def os_path_exists_def makedirs_def key_publish_area absent free)
qed

subsection \<open>Patterns and the template lookup\<close>

lemma glob_match_literal:
  "CHR ''*'' \<notin> set p \<Longrightarrow> CHR ''?'' \<notin> set p \<Longrightarrow> glob_match p s = (s = p)"
  by (induction p s rule: glob_match.induct) auto

lemma get_template_by_name_cases:
  "get_template_by_name env v = PNone \<or> (\<exists>t. get_template_by_name env v = PTemplate t)"
  by (simp add: get_template_by_name_def split: pyval.splits option.splits)

lemma accept_present:
  "settings_arg ''Publish Template'' = Some s \<Longrightarrow>
   accept env settings_arg item =
     (Inr \<lparr>accepted = truthy (get_template_by_name env (setting_value s)), checked = True\<rparr>,
      item\<lparr>properties := (properties item)
        (''publish_template'' \<mapsto> get_template_by_name env (setting_value s))\<rparr>)"
  by (simp add: accept_def Let_def)

text \<open>The fields \<^verbatim>\<open>validate\<close> builds in the example, and what the templates make of them.\<close>

lemma example_fields:
  "[''name'' \<mapsto> dict_get (properties (templated_item t)) ''asset_name'',
    ''YYYY'' \<mapsto> PInt (year (today configured_env)),
    ''MM'' \<mapsto> PInt (month (today configured_env)),
    ''DD'' \<mapsto> PInt (day (today configured_env))]
   = [''name'' \<mapsto> PStr ''Hero'', ''YYYY'' \<mapsto> PInt 2024, ''MM'' \<mapsto> PInt 3, ''DD'' \<mapsto> PInt 5]"
  by (simp add: templated_item_def dict_get_def configured_env_def example_env_def)

lemma untidy_resolved:
  "configured_apply_fields untidy_template
     [''name'' \<mapsto> PStr ''Hero'', ''YYYY'' \<mapsto> PInt 2024, ''MM'' \<mapsto> PInt 3, ''DD'' \<mapsto> PInt 5]
   = Inr ''/pub//2024/./3/5/tmp/../Hero/''"
  by (simp add: configured_apply_fields_def int_str_def digits.simps)

lemma relative_resolved:
  "configured_apply_fields relative_template
     [''name'' \<mapsto> PStr ''Hero'', ''YYYY'' \<mapsto> PInt 2024, ''MM'' \<mapsto> PInt 3, ''DD'' \<mapsto> PInt 5]
   = Inr ''Hero''"
  by (simp add: configured_apply_fields_def relative_template_def untidy_template_def)

lemma versioned_unresolved:
  "configured_apply_fields versioned_template
     [''name'' \<mapsto> PStr ''Hero'', ''YYYY'' \<mapsto> PInt 2024, ''MM'' \<mapsto> PInt 3, ''DD'' \<mapsto> PInt 5]
   = Inl (TankError ''missing field'')"
  by (simp add: configured_apply_fields_def relative_template_def untidy_template_def
      versioned_template_def)

lemmas normpath_eval =
  os_path_normpath_def normpath_comps_def initial_slashes_of_def normpath_step_def

lemmas split_eval = os_path_split_def rfind_def rstrip_def

lemmas normal_eval = path_normal_def good_comps_def Let_def

subsection \<open>The properties \<^verbatim>\<open>item_filters\<close> and \<^verbatim>\<open>settings\<close>\<close>

text \<open>
  C6: \<^verbatim>\<open>item_filters\<close> is the one-element list \<^verbatim>\<open>["unreal.asset.SkeletalMesh"]\<close>,
  so an item is presented to \<^verbatim>\<open>accept\<close> exactly when its type is
  \<^verbatim>\<open>unreal.asset.SkeletalMesh\<close>.
\<close>

theorem item_filters_skeletal_mesh:
  "item_filters = [''unreal.asset.SkeletalMesh'']
   \<and> (\<forall>item_type. presented_to_accept item_type = (item_type = ''unreal.asset.SkeletalMesh''))"
  by (simp add: presented_to_accept_def item_filters_def glob_match_literal)

theorem item_filters_skeletal_mesh_witness:
  "presented_to_accept ''unreal.asset.SkeletalMesh''
   \<and> \<not> presented_to_accept ''unreal.asset.StaticMesh''"
  using item_filters_skeletal_mesh by simp

text \<open>
  C7: \<^verbatim>\<open>settings\<close> is the base class's settings mapping (empty when the base
  class has none) updated at the key \<^verbatim>\<open>Publish Template\<close> with an entry of type
  \<^verbatim>\<open>template\<close> and default \<^verbatim>\<open>None\<close>; every base-class setting under another
  key is kept as it is.
\<close>

theorem settings_merged:
  "settings env =
     (case base_settings env of None \<Rightarrow> Map.empty | Some d \<Rightarrow> d)
       (''Publish Template'' \<mapsto>
          [''type'' \<mapsto> PStr ''template'',
           ''default'' \<mapsto> PNone,
           ''description'' \<mapsto>
             PStr ''Template path for published work files. Shouldcorrespond to a template defined in templates.yml.''])
   \<and> (\<exists>e. settings env ''Publish Template'' = Some e
          \<and> e ''type'' = Some (PStr ''template'') \<and> e ''default'' = Some PNone)
   \<and> (\<forall>k. k \<noteq> ''Publish Template'' \<longrightarrow>
          settings env k = (case base_settings env of None \<Rightarrow> None | Some d \<Rightarrow> d k))"
  by (auto simp: settings_def Let_def split: option.splits)

theorem settings_merged_witness:
  "settings example_env ''File Types'' = Some [''type'' \<mapsto> PStr ''list'']
   \<and> (\<exists>e. settings example_env ''Publish Template'' = Some e
          \<and> e ''type'' = Some (PStr ''template'') \<and> e ''default'' = Some PNone)"
  using settings_merged [of example_env] by (simp add: example_env_def)

subsection \<open>\<^verbatim>\<open>finalize\<close>\<close>

text \<open>
  C8: for every settings mapping, item and world, \<^verbatim>\<open>finalize\<close> gives exactly what
  the base class's \<^verbatim>\<open>finalize\<close> gives on the same arguments: the same result or
  exception, the same item and the same world.
\<close>

theorem finalize_delegates:
  "finalize env settings_arg item w = base_finalize env settings_arg item w"
  by (simp add: finalize_def)

subsection \<open>\<^verbatim>\<open>accept\<close>\<close>

text \<open>
  C4: when the settings hold a \<^verbatim>\<open>Publish Template\<close> entry and the template it
  names does not resolve to a template object, \<^verbatim>\<open>accept\<close> raises nothing and
  returns the dictionary with \<^verbatim>\<open>accepted = False\<close> (and \<^verbatim>\<open>checked = True\<close>).
\<close>

theorem accept_fails_closed:
  "settings_arg ''Publish Template'' = Some s \<Longrightarrow>
   (\<forall>t. get_template_by_name env (setting_value s) \<noteq> PTemplate t) \<Longrightarrow>
   fst (accept env settings_arg item) = Inr \<lparr>accepted = False, checked = True\<rparr>"
  by (auto simp: accept_def get_template_by_name_def Let_def split: pyval.splits option.splits)

theorem accept_fails_closed_witness:
  "fst (accept example_env (example_settings ''no_such_template'') example_item)
     = Inr \<lparr>accepted = False, checked = True\<rparr>"
  by (rule accept_fails_closed [where s = "\<lparr>setting_value = PStr ''no_such_template''\<rparr>"])
     (simp_all add: example_settings_def example_env_def get_template_by_name_def)

text \<open>
  C9: every call of \<^verbatim>\<open>accept\<close> on settings that hold the \<^verbatim>\<open>Publish Template\<close>
  entry assigns \<^verbatim>\<open>item.properties["publish_template"]\<close> the result of the lookup
  and changes no other property. When the call returns \<^verbatim>\<open>accepted = False\<close>
  the property is written all the same and holds \<^verbatim>\<open>None\<close>; an item that had no
  such property before is therefore not left as it was.
\<close>

theorem accept_stashes_template:
  assumes "settings_arg ''Publish Template'' = Some s"
  shows "properties (snd (accept env settings_arg item)) =
           (properties item)(''publish_template'' \<mapsto> get_template_by_name env (setting_value s))
         \<and> (fst (accept env settings_arg item) = Inr \<lparr>accepted = False, checked = True\<rparr>
              \<longrightarrow> properties (snd (accept env settings_arg item)) ''publish_template''
                    = Some PNone)
         \<and> (properties item ''publish_template'' = None
              \<longrightarrow> snd (accept env settings_arg item) \<noteq> item)"
proof -
  let ?v = "get_template_by_name env (setting_value s)"
  have acc: "accept env settings_arg item =
      (Inr \<lparr>accepted = truthy ?v, checked = True\<rparr>,
       item\<lparr>properties := (properties item)(''publish_template'' \<mapsto> ?v)\<rparr>)"
    using assms by (rule accept_present)
  have written: "properties (snd (accept env settings_arg item)) =
      (properties item)(''publish_template'' \<mapsto> ?v)"
    by (simp add: acc)
  have rejected: "properties (snd (accept env settings_arg item)) ''publish_template'' = Some PNone"
    if "fst (accept env settings_arg item) = Inr \<lparr>accepted = False, checked = True\<rparr>"
  proof -
    from that have "\<not> truthy ?v" by (simp add: acc)
    with get_template_by_name_cases [of env "setting_value s"] have "?v = PNone" by auto
    then show ?thesis by (simp add: written)
  qed
  have modified: "snd (accept env settings_arg item) \<noteq> item"
    if "properties item ''publish_template'' = None"
  proof
    assume "snd (accept env settings_arg item) = item"
    then have "properties (snd (accept env settings_arg item)) ''publish_template''
        = properties item ''publish_template''" by simp
    with that show False by (simp add: written)
  qed
  from written rejected modified show ?thesis by blast
qed

theorem accept_stashes_template_witness:
  "properties (snd (accept example_env (example_settings ''no_such_template'') example_item))
     ''publish_template'' = Some PNone
   \<and> fst (accept example_env (example_settings ''no_such_template'') example_item)
       = Inr \<lparr>accepted = False, checked = True\<rparr>
   \<and> snd (accept example_env (example_settings ''no_such_template'') example_item)
       \<noteq> example_item"
proof -
  have s: "example_settings ''no_such_template'' ''Publish Template''
      = Some \<lparr>setting_value = PStr ''no_such_template''\<rparr>"
    by (simp add: example_settings_def)
  have r: "fst (accept example_env (example_settings ''no_such_template'') example_item)
      = Inr \<lparr>accepted = False, checked = True\<rparr>"
    by (simp add: accept_def example_settings_def example_env_def get_template_by_name_def)
  have p: "properties example_item ''publish_template'' = None"
    by (simp add: example_item_def)
  from accept_stashes_template
      [where settings_arg = "example_settings ''no_such_template''"
         and s = "\<lparr>setting_value = PStr ''no_such_template''\<rparr>"
         and env = example_env and item = example_item, OF s] r p
  show ?thesis by blast
qed

subsection \<open>\<^verbatim>\<open>validate\<close>\<close>

text \<open>
  C2, as the code has it: for an item with a non-empty \<^verbatim>\<open>asset_path\<close>, a non-empty
  \<^verbatim>\<open>asset_name\<close> and a template object as \<^verbatim>\<open>publish_template\<close>, whose template
  resolves the fields \<^verbatim>\<open>{name: asset_name, YYYY, MM, DD}\<close> of today's date to a
  path \<open>p\<close>, \<^verbatim>\<open>validate\<close> returns \<^verbatim>\<open>True\<close> and leaves the item with \<^verbatim>\<open>publish_type\<close>
  set, \<^verbatim>\<open>path\<close> set to \<^verbatim>\<open>normpath\<close> of \<open>p\<close> and \<^verbatim>\<open>destination_path\<close> set to the head
  \<^verbatim>\<open>os.path.split\<close> gives for that path. The path is in normal form and a
  fixed point of \<^verbatim>\<open>normpath\<close>. So is the destination when the path contains a
  slash, which it does whenever \<open>p\<close> is absolute; when the path is a single
  relative name the destination is the empty string. The theorem after it has
  the example (the template \<^verbatim>\<open>/pub/{YYYY}/{MM}/{DD}/{name}\<close> with \<^verbatim>\<open>Hero\<close> on the
  5th of March 2024 gives \<^verbatim>\<open>/pub/2024/3/5/Hero\<close> and \<^verbatim>\<open>/pub/2024/3/5\<close>), a template
  whose result is not in normal form and is brought to the same two paths, and
  a template that resolves to the bare name \<^verbatim>\<open>Hero\<close>.
\<close>

theorem validate_sets_paths:
  assumes "truthy (dict_get (properties item) ''asset_path'')"
    and "truthy (dict_get (properties item) ''asset_name'')"
    and "properties item ''publish_template'' = Some (PTemplate t)"
    and "apply_fields env t
           [''name'' \<mapsto> dict_get (properties item) ''asset_name'',
            ''YYYY'' \<mapsto> PInt (year (today env)),
            ''MM'' \<mapsto> PInt (month (today env)),
            ''DD'' \<mapsto> PInt (day (today env))] = Inr p"
  shows "validate env settings_arg item =
           (Inr True,
            item\<lparr>properties := (properties item)
              (''publish_type'' \<mapsto> PStr ''Unreal Folder'',
               ''path'' \<mapsto> PStr (os_path_normpath p),
               ''destination_path'' \<mapsto> PStr (fst (os_path_split (os_path_normpath p))))\<rparr>)
         \<and> path_normal (os_path_normpath p)
         \<and> is_normalized (os_path_normpath p)
         \<and> (CHR ''/'' \<in> set (os_path_normpath p)
              \<longrightarrow> path_normal (fst (os_path_split (os_path_normpath p)))
                  \<and> is_normalized (fst (os_path_split (os_path_normpath p))))
         \<and> (CHR ''/'' \<notin> set (os_path_normpath p)
              \<longrightarrow> fst (os_path_split (os_path_normpath p)) = [])
         \<and> (prefix ''/'' p \<longrightarrow> CHR ''/'' \<in> set (os_path_normpath p))"
proof -
  let ?path = "os_path_normpath p"
  let ?dest = "fst (os_path_split ?path)"
  have "validate env settings_arg item =
           (Inr True,
            item\<lparr>properties := (properties item)
              (''publish_type'' \<mapsto> PStr ''Unreal Folder'',
               ''path'' \<mapsto> PStr ?path,
               ''destination_path'' \<mapsto> PStr ?dest)\<rparr>)"
    using assms by (simp add: validate_def dict_get_def Let_def)
  moreover have "path_normal ?path"
    by (rule path_normal_normpath)
  moreover have "is_normalized ?path"
    by (simp add: is_normalized_def normpath_idem)
  moreover have "path_normal ?dest \<and> is_normalized ?dest" if "CHR ''/'' \<in> set ?path"
  proof -
    from that have "?dest \<noteq> []" by (rule os_path_split_head_nonempty)
    then show ?thesis
      by (simp add: split_normpath_head_normal is_normalized_def split_normpath_head)
  qed
  moreover have "?dest = []" if "CHR ''/'' \<notin> set ?path"
    using that by (simp add: os_path_split_no_slash)
  moreover have "CHR ''/'' \<in> set ?path" if "prefix ''/'' p"
    using that by (rule absolute_normpath_has_slash)
  ultimately show ?thesis by blast
qed

theorem validate_sets_paths_witness:
  "validate example_env (example_settings ''unreal_asset_publish'') accepted_item =
     (Inr True,
      accepted_item\<lparr>properties := (properties accepted_item)
        (''publish_type'' \<mapsto> PStr ''Unreal Folder'',
         ''path'' \<mapsto> PStr ''/pub/2024/3/5/Hero'',
         ''destination_path'' \<mapsto> PStr ''/pub/2024/3/5'')\<rparr>)
   \<and> path_normal ''/pub/2024/3/5/Hero'' \<and> is_normalized ''/pub/2024/3/5/Hero''
   \<and> path_normal ''/pub/2024/3/5'' \<and> is_normalized ''/pub/2024/3/5''
   \<and> \<not> path_normal ''/pub//2024/./3/5/tmp/../Hero/''
   \<and> validate configured_env (example_settings ''unreal_asset_publish'')
         (templated_item untidy_template) =
       (Inr True,
        templated_item untidy_template\<lparr>properties := (properties (templated_item untidy_template))
          (''publish_type'' \<mapsto> PStr ''Unreal Folder'',
           ''path'' \<mapsto> PStr ''/pub/2024/3/5/Hero'',
           ''destination_path'' \<mapsto> PStr ''/pub/2024/3/5'')\<rparr>)
   \<and> validate configured_env (example_settings ''unreal_asset_publish'')
         (templated_item relative_template) =
       (Inr True,
        templated_item relative_template\<lparr>properties := (properties (templated_item relative_template))
          (''publish_type'' \<mapsto> PStr ''Unreal Folder'',
           ''path'' \<mapsto> PStr ''Hero'',
           ''destination_path'' \<mapsto> PStr [])\<rparr>)"
proof -
  have fields: "apply_fields example_env pub_template
      [''name'' \<mapsto> dict_get (properties accepted_item) ''asset_name'',
       ''YYYY'' \<mapsto> PInt (year (today example_env)),
       ''MM'' \<mapsto> PInt (month (today example_env)),
       ''DD'' \<mapsto> PInt (day (today example_env))] = Inr ''/pub/2024/3/5/Hero''"
    by (simp add: example_env_def pub_apply_fields_def accepted_item_def dict_get_def
        int_str_def digits.simps)
  have n: "os_path_normpath ''/pub/2024/3/5/Hero'' = ''/pub/2024/3/5/Hero''"
    by (simp add: normpath_eval)
  have s: "os_path_split ''/pub/2024/3/5/Hero'' = (''/pub/2024/3/5'', ''Hero'')"
    by (simp add: split_eval)
  have tidy: "validate example_env (example_settings ''unreal_asset_publish'') accepted_item =
     (Inr True,
      accepted_item\<lparr>properties := (properties accepted_item)
        (''publish_type'' \<mapsto> PStr ''Unreal Folder'',
         ''path'' \<mapsto> PStr ''/pub/2024/3/5/Hero'',
         ''destination_path'' \<mapsto> PStr ''/pub/2024/3/5'')\<rparr>)
   \<and> path_normal ''/pub/2024/3/5/Hero'' \<and> is_normalized ''/pub/2024/3/5/Hero''
   \<and> path_normal ''/pub/2024/3/5'' \<and> is_normalized ''/pub/2024/3/5''"
    using validate_sets_paths [where env = example_env and item = accepted_item
      and t = pub_template and p = "''/pub/2024/3/5/Hero''"
      and settings_arg = "example_settings ''unreal_asset_publish''", OF _ _ _ fields]
    by (simp add: n s accepted_item_def dict_get_def)
  have raw: "\<not> path_normal ''/pub//2024/./3/5/tmp/../Hero/''"
    by (simp add: normal_eval)
  have un: "os_path_normpath ''/pub//2024/./3/5/tmp/../Hero/'' = ''/pub/2024/3/5/Hero''"
    by (simp add: normpath_eval)
  have untidy: "validate configured_env (example_settings ''unreal_asset_publish'')
         (templated_item untidy_template) =
       (Inr True,
        templated_item untidy_template\<lparr>properties := (properties (templated_item untidy_template))
          (''publish_type'' \<mapsto> PStr ''Unreal Folder'',
           ''path'' \<mapsto> PStr ''/pub/2024/3/5/Hero'',
           ''destination_path'' \<mapsto> PStr ''/pub/2024/3/5'')\<rparr>)"
    using validate_sets_paths [where env = configured_env and item = "templated_item untidy_template"
      and t = untidy_template and p = "''/pub//2024/./3/5/tmp/../Hero/''"
      and settings_arg = "example_settings ''unreal_asset_publish''", THEN conjunct1]
      untidy_resolved
    by (simp add: un s example_fields) (simp add: templated_item_def dict_get_def configured_env_def)
  have rn: "os_path_normpath ''Hero'' = ''Hero''"
    by (simp add: normpath_eval)
  have rs: "os_path_split ''Hero'' = ([], ''Hero'')"
    by (simp add: split_eval)
  have relative: "validate configured_env (example_settings ''unreal_asset_publish'')
         (templated_item relative_template) =
       (Inr True,
        templated_item relative_template\<lparr>properties := (properties (templated_item relative_template))
          (''publish_type'' \<mapsto> PStr ''Unreal Folder'',
           ''path'' \<mapsto> PStr ''Hero'',
           ''destination_path'' \<mapsto> PStr [])\<rparr>)"
    using validate_sets_paths [where env = configured_env and item = "templated_item relative_template"
      and t = relative_template and p = "''Hero''"
      and settings_arg = "example_settings ''unreal_asset_publish''", THEN conjunct1]
      relative_resolved
    by (simp add: rn rs example_fields) (simp add: templated_item_def dict_get_def configured_env_def)
  from tidy raw untidy relative show ?thesis by blast
qed

text \<open>
  Without the condition that the template resolves the fields, C2 fails: for
  the template \<^verbatim>\<open>/pub/{name}/v{version}\<close> the item has all three properties,
  and \<^verbatim>\<open>validate\<close> raises the toolkit's error instead of returning \<^verbatim>\<open>True\<close>,
  with \<^verbatim>\<open>publish_type\<close> already written.
\<close>

theorem validate_unresolved_template_counterexample:
  "truthy (dict_get (properties (templated_item versioned_template)) ''asset_path'')
   \<and> truthy (dict_get (properties (templated_item versioned_template)) ''asset_name'')
   \<and> properties (templated_item versioned_template) ''publish_template''
       = Some (PTemplate versioned_template)
   \<and> validate configured_env (example_settings ''unreal_asset_publish'')
         (templated_item versioned_template) =
       (Inl (TankError ''missing field''),
        templated_item versioned_template\<lparr>properties := (properties (templated_item versioned_template))
          (''publish_type'' \<mapsto> PStr ''Unreal Folder'')\<rparr>)
   \<and> fst (validate configured_env (example_settings ''unreal_asset_publish'')
         (templated_item versioned_template)) \<noteq> Inr True"
proof -
  have "apply_fields configured_env versioned_template
      [''name'' \<mapsto> dict_get (properties (templated_item versioned_template)) ''asset_name'',
       ''YYYY'' \<mapsto> PInt (year (today configured_env)),
       ''MM'' \<mapsto> PInt (month (today configured_env)),
       ''DD'' \<mapsto> PInt (day (today configured_env))] = Inl (TankError ''missing field'')"
    unfolding example_fields using versioned_unresolved by (simp add: configured_env_def)
  then have "validate configured_env (example_settings ''unreal_asset_publish'')
         (templated_item versioned_template) =
       (Inl (TankError ''missing field''),
        templated_item versioned_template\<lparr>properties := (properties (templated_item versioned_template))
          (''publish_type'' \<mapsto> PStr ''Unreal Folder'')\<rparr>)"
    by (simp add: validate_def Let_def) (simp add: templated_item_def dict_get_def)
  then show ?thesis
    by (simp add: templated_item_def dict_get_def)
qed

text \<open>
  C5: when \<^verbatim>\<open>asset_path\<close> is missing or empty, or \<^verbatim>\<open>asset_name\<close> is missing or
  empty, or there is no resolved publish template among the properties (each
  read with \<^verbatim>\<open>get\<close> and tested for truth, so a missing key, \<^verbatim>\<open>None\<close> and the
  empty string all count), \<^verbatim>\<open>validate\<close> returns \<^verbatim>\<open>False\<close> and raises nothing.
\<close>

theorem validate_false_on_missing:
  "\<not> truthy (dict_get (properties item) ''asset_path'')
   \<or> \<not> truthy (dict_get (properties item) ''asset_name'')
   \<or> \<not> truthy (dict_get (properties item) ''publish_template'') \<Longrightarrow>
   validate env settings_arg item = (Inr False, item)"
  by (auto simp: validate_def Let_def)

theorem validate_false_on_missing_witness:
  "validate example_env (example_settings ''unreal_asset_publish'')
     \<lparr>properties = [''asset_name'' \<mapsto> PStr ''Hero'']\<rparr>
     = (Inr False, \<lparr>properties = [''asset_name'' \<mapsto> PStr ''Hero'']\<rparr>)
   \<and> validate example_env (example_settings ''unreal_asset_publish'')
       \<lparr>properties = [''asset_path'' \<mapsto> PStr ''/Game/A/B'', ''asset_name'' \<mapsto> PStr []]\<rparr>
     = (Inr False,
        \<lparr>properties = [''asset_path'' \<mapsto> PStr ''/Game/A/B'', ''asset_name'' \<mapsto> PStr []]\<rparr>)
   \<and> validate example_env (example_settings ''unreal_asset_publish'') example_item
     = (Inr False, example_item)"
proof -
  have a: "\<not> truthy (dict_get (properties \<lparr>properties = [''asset_name'' \<mapsto> PStr ''Hero'']\<rparr>)
      ''asset_path'')"
    by (simp add: dict_get_def)
  have b: "\<not> truthy (dict_get (properties
      \<lparr>properties = [''asset_path'' \<mapsto> PStr ''/Game/A/B'', ''asset_name'' \<mapsto> PStr []]\<rparr>)
      ''asset_name'')"
    by (simp add: dict_get_def)
  have c: "\<not> truthy (dict_get (properties example_item) ''publish_template'')"
    by (simp add: dict_get_def example_item_def)
  show ?thesis
    using validate_false_on_missing [OF disjI1, OF a,
        of example_env "example_settings ''unreal_asset_publish''"]
      validate_false_on_missing [OF disjI2, OF disjI1, OF b,
        of example_env "example_settings ''unreal_asset_publish''"]
      validate_false_on_missing [OF disjI2, OF disjI2, OF c,
        of example_env "example_settings ''unreal_asset_publish''"]
    by simp
qed

text \<open>
  C10: whenever \<^verbatim>\<open>validate\<close> returns \<^verbatim>\<open>False\<close>, the item it leaves is the item it
  was given: no property is added or changed.
\<close>

theorem validate_false_unchanged:
  "fst (validate env settings_arg item) = Inr False \<Longrightarrow>
   snd (validate env settings_arg item) = item"
  by (auto simp: validate_def Let_def split: if_splits pyval.splits sum.splits)

theorem validate_false_unchanged_witness:
  "fst (validate example_env (example_settings ''unreal_asset_publish'') example_item) = Inr False
   \<and> snd (validate example_env (example_settings ''unreal_asset_publish'') example_item)
       = example_item"
proof -
  have f: "fst (validate example_env (example_settings ''unreal_asset_publish'') example_item)
      = Inr False"
    by (simp add: validate_def dict_get_def example_item_def)
  from f validate_false_unchanged [OF f] show ?thesis by simp
qed

subsection \<open>\<^verbatim>\<open>publish\<close>\<close>

text \<open>
  C1: for an item whose \<^verbatim>\<open>asset_path\<close> is \<^verbatim>\<open>/Game/<seg1>/.../<segN>\<close> (segments
  without a slash) and for every work directory, \<^verbatim>\<open>publish\<close> makes sure the
  destination directory exists, strips the first two parts (the empty one
  before the leading slash and \<^verbatim>\<open>Game\<close>) and the last part of the asset path,
  joins what is left under the work directory and \<^verbatim>\<open>Content\<close>, and calls the
  recursive copy from that directory to the join of \<^verbatim>\<open>destination_path\<close> and
  \<^verbatim>\<open>asset_name\<close>, before it hands over to the base class. The joins are the
  path \<^verbatim>\<open><work_dir>/Content/<rest>\<close> and \<^verbatim>\<open><destination_path>/<asset_name>\<close> for
  a directory that does not end with a slash and a second part that does not
  start with one. A copy that succeeds leaves below the destination what was
  below the source. The theorem after it is the example: \<^verbatim>\<open>/Game/Characters/Hero/Hero_Skeleton\<close>
  and \<^verbatim>\<open>/work\<close> give the source \<^verbatim>\<open>/work/Content/Characters/Hero\<close>, copied to
  \<^verbatim>\<open><destination_path>/Hero\<close>.
\<close>

theorem publish_copies_source_dir:
  assumes "segs \<noteq> []" and "\<forall>s\<in>set segs. CHR ''/'' \<notin> set s"
    and "properties item ''asset_path'' = Some (PStr (''/Game/'' @ str_join ''/'' segs))"
    and "properties item ''destination_path'' = Some (PStr d)"
    and "properties item ''asset_name'' = Some (PStr n)"
  shows "publish env settings_arg item w =
           (case ensure_folder_exists (PStr d) (fs w) of
              Inl e \<Rightarrow> Inl e
            | Inr fs1 \<Rightarrow>
                (case copytree
                        (os_path_join (shotgun_work_dir env)
                           [''Content'', str_join ''/'' (butlast segs)])
                        (os_path_join d [n]) fs1 of
                   Inl e \<Rightarrow> Inl e
                 | Inr fs2 \<Rightarrow> base_publish env settings_arg item (w\<lparr>fs := fs2\<rparr>)))
         \<and> (shotgun_work_dir env \<noteq> [] \<and> last (shotgun_work_dir env) \<noteq> CHR ''/''
              \<and> \<not> prefix ''/'' (str_join ''/'' (butlast segs))
              \<longrightarrow> os_path_join (shotgun_work_dir env) [''Content'', str_join ''/'' (butlast segs)]
                    = shotgun_work_dir env @ ''/Content/'' @ str_join ''/'' (butlast segs))
         \<and> (d \<noteq> [] \<and> last d \<noteq> CHR ''/'' \<and> \<not> prefix ''/'' n
              \<longrightarrow> os_path_join d [n] = d @ ''/'' @ n)
         \<and> (\<forall>fs1 fs2 rest.
               copytree
                 (os_path_join (shotgun_work_dir env) [''Content'', str_join ''/'' (butlast segs)])
                 (os_path_join d [n]) fs1 = Inr fs2
               \<longrightarrow> fs2 (path_key (os_path_join d [n]) @ rest)
                     = node_at fs1
                         (path_key (os_path_join (shotgun_work_dir env)
                            [''Content'', str_join ''/'' (butlast segs)]) @ rest))"
proof -
  have "publish env settings_arg item w =
           (case ensure_folder_exists (PStr d) (fs w) of
              Inl e \<Rightarrow> Inl e
            | Inr fs1 \<Rightarrow>
                (case copytree
                        (os_path_join (shotgun_work_dir env)
                           [''Content'', str_join ''/'' (butlast segs)])
                        (os_path_join d [n]) fs1 of
                   Inl e \<Rightarrow> Inl e
                 | Inr fs2 \<Rightarrow> base_publish env settings_arg item (w\<lparr>fs := fs2\<rparr>)))"
    by (simp only: publish_unfold [OF assms(3-5)] asset_path_segments [OF assms(2,1)])
  moreover have "os_path_join d [n] = d @ ''/'' @ n"
    if "d \<noteq> []" "last d \<noteq> CHR ''/''" "\<not> prefix ''/'' n"
    using that by (simp add: join_two)
  ultimately show ?thesis
    by (simp add: join_under copytree_copies)
qed

theorem publish_copies_source_dir_witness:
  "(\<forall>d w. publish example_env (example_settings ''unreal_asset_publish'') (published_item d) w =
      (case ensure_folder_exists (PStr d) (fs w) of
         Inl e \<Rightarrow> Inl e
       | Inr fs1 \<Rightarrow>
           (case copytree ''/work/Content/Characters/Hero'' (os_path_join d [''Hero'']) fs1 of
              Inl e \<Rightarrow> Inl e
            | Inr fs2 \<Rightarrow> Inr (published_item d, w\<lparr>fs := fs2\<rparr>))))
   \<and> os_path_join ''/pub/2024/3/5'' [''Hero''] = ''/pub/2024/3/5/Hero''
   \<and> (\<exists>w. publish example_env (example_settings ''unreal_asset_publish'')
              (published_item ''/pub/2024/3/5'') example_world
            = Inr (published_item ''/pub/2024/3/5'', w)
          \<and> fs w ['''', ''pub'', ''2024'', ''3'', ''5'', ''Hero''] = Some Dir
          \<and> fs w ['''', ''pub'', ''2024'', ''3'', ''5'', ''Hero'', ''Hero_Skeleton.uasset'']
              = Some File)"
proof -
  have unfolded:
    "publish example_env (example_settings ''unreal_asset_publish'') (published_item d) w =
      (case ensure_folder_exists (PStr d) (fs w) of
         Inl e \<Rightarrow> Inl e
       | Inr fs1 \<Rightarrow>
           (case copytree ''/work/Content/Characters/Hero'' (os_path_join d [''Hero'']) fs1 of
              Inl e \<Rightarrow> Inl e
            | Inr fs2 \<Rightarrow> Inr (published_item d, w\<lparr>fs := fs2\<rparr>)))" for d and w :: "unit world"
    using publish_copies_source_dir
      [where segs = "[''Characters'', ''Hero'', ''Hero_Skeleton'']" and item = "published_item d"
         and d = d and n = "''Hero''" and env = example_env and w = w
         and settings_arg = "example_settings ''unreal_asset_publish''", THEN conjunct1]
    by (simp add: published_item_def example_env_def os_path_join_def join_step_def
          split: sum.splits)
  have joined: "os_path_join ''/pub/2024/3/5'' [''Hero''] = ''/pub/2024/3/5/Hero''"
    by (simp add: os_path_join_def join_step_def)
  let ?fs1 = "\<lambda>q. if q \<in> set (ancestors ['''', ''pub'', ''2024'', ''3'', ''5'']) then Some Dir
                 else node_at example_fs q"
  have "\<exists>fs2. copytree ''/work/Content/Characters/Hero'' ''/pub/2024/3/5/Hero'' ?fs1 = Inr fs2"
    by (simp add: copytree_def makedirs_def key_destination key_source ancestors_Nil
        ancestors_Cons node_at_def example_fs_def Let_def)
  then obtain fs2
    where copied: "copytree ''/work/Content/Characters/Hero'' ''/pub/2024/3/5/Hero'' ?fs1 = Inr fs2" ..
  have run: "publish example_env (example_settings ''unreal_asset_publish'')
           (published_item ''/pub/2024/3/5'') example_world
           = Inr (published_item ''/pub/2024/3/5'', example_world\<lparr>fs := fs2\<rparr>)"
    using unfolded [of "''/pub/2024/3/5''" example_world] copied example_ensure_folder
    by (simp add: example_world_def joined)
  have "fs2 (path_key ''/pub/2024/3/5/Hero'' @ []) = Some Dir"
    unfolding copytree_copies [OF copied]
    by (simp add: key_source ancestors_Nil ancestors_Cons node_at_def example_fs_def)
  moreover have "fs2 (path_key ''/pub/2024/3/5/Hero'' @ [''Hero_Skeleton.uasset'']) = Some File"
    unfolding copytree_copies [OF copied]
    by (simp add: key_source ancestors_Nil ancestors_Cons node_at_def example_fs_def)
  ultimately have "\<exists>w. publish example_env (example_settings ''unreal_asset_publish'')
              (published_item ''/pub/2024/3/5'') example_world
            = Inr (published_item ''/pub/2024/3/5'', w)
          \<and> fs w ['''', ''pub'', ''2024'', ''3'', ''5'', ''Hero''] = Some Dir
          \<and> fs w ['''', ''pub'', ''2024'', ''3'', ''5'', ''Hero'', ''Hero_Skeleton.uasset'']
              = Some File"
    using run by (simp add: key_destination)
  with unfolded joined show ?thesis by blast
qed

text \<open>
  C3: when \<^verbatim>\<open>destination_path\<close> and \<^verbatim>\<open>asset_name\<close> are strings and their join, the
  destination of the copy, already exists on the file system, \<^verbatim>\<open>publish\<close> ends
  in an exception: creating the destination directory adds directories and
  removes nothing, the recursive copy refuses a destination that exists, and
  \<^verbatim>\<open>publish\<close> catches nothing.
\<close>

theorem publish_raises_on_existing_destination:
  assumes "properties item ''destination_path'' = Some (PStr d)"
    and "properties item ''asset_name'' = Some (PStr n)"
    and "os_path_exists (fs w) (os_path_join d [n])"
  shows "\<exists>e. publish env settings_arg item w = Inl e"
proof (cases "ensure_folder_exists (PStr d) (fs w)")
  case (Inl e)
  then show ?thesis
    using assms(1) by (simp add: publish_def dict_item_def)
next
  case created: (Inr fs1)
  then have "os_path_exists fs1 (os_path_join d [n])"
    using assms(3) by (rule ensure_folder_exists_keeps_path)
  then have refused: "\<exists>e. copytree src (os_path_join d [n]) fs1 = Inl e" for src
    by (rule copytree_existing_destination)
  show ?thesis
  proof (cases "properties item ''asset_path''")
    case None
    then show ?thesis
      using assms(1) created by (simp add: publish_def dict_item_def)
  next
    case (Some a)
    let ?src = "os_path_join (shotgun_work_dir env)
      [''Content'', str_join ''/''
         (py_slice (str_split CHR ''/'' (py_str (template_str env) a)) 2 (- 1))]"
    from refused [of ?src] obtain e where "copytree ?src (os_path_join d [n]) fs1 = Inl e" ..
    then have "publish env settings_arg item w = Inl e"
      using assms(1,2) created Some by (simp add: publish_def dict_item_def Let_def)
    then show ?thesis ..
  qed
qed

theorem publish_raises_on_existing_destination_witness:
  "os_path_exists (fs occupied_world) (os_path_join ''/pub/2024/3/5'' [''Hero''])
   \<and> (\<exists>e. publish example_env (example_settings ''unreal_asset_publish'')
            (published_item ''/pub/2024/3/5'') occupied_world = Inl e)
   \<and> publish example_env (example_settings ''unreal_asset_publish'')
        (published_item ''/pub/2024/3/5'') occupied_world = Inl FileExistsError"
proof -
  have there: "os_path_exists (fs occupied_world) (os_path_join ''/pub/2024/3/5'' [''Hero''])"
    by (simp add: os_path_exists_def occupied_world_def node_at_def path_eval)
  have "\<exists>e. publish example_env (example_settings ''unreal_asset_publish'')
            (published_item ''/pub/2024/3/5'') occupied_world = Inl e"
    by (rule publish_raises_on_existing_destination [OF _ _ there])
       (simp_all add: published_item_def)
  moreover have "publish example_env (example_settings ''unreal_asset_publish'')
        (published_item ''/pub/2024/3/5'') occupied_world = Inl FileExistsError"
    by (simp add: publish_def dict_item_def published_item_def occupied_world_def
        example_env_def ensure_folder_exists_def os_path_exists_def node_at_def makedirs_def
        copytree_def example_fs_def path_eval py_slice_def Let_def ancestors_Nil ancestors_Cons)
  ultimately show ?thesis using there by simp
qed

end
